theory Spec2Isabelle
  imports Main "HOL-Library.Char_ord" "HOL-Library.List_Lexorder"
begin

section \<open>JavaScript strings and values\<close>

text \<open>
  A JavaScript string is modelled as a \<^typ>\<open>string\<close> whose characters are the code units
  U+0000 to U+00FF (Latin-1); \<open>of_char\<close> gives the code unit.  Strings are compared by code
  unit, which is the order of \<^theory_text>\<open>Char_ord\<close> lifted lexicographically.

  An error thrown by the platform is a value of \<open>error\<close>: \<open>SyntaxError\<close> is the exception
  that \<^verbatim>\<open>new RegExp\<close> throws; \<open>Unsupported\<close> marks a regular expression that uses
  syntax outside the fragment modelled below, about which the model says nothing.
\<close>

datatype error = SyntaxError | Unsupported

definition isDigit :: "char \<Rightarrow> bool" where
  "isDigit c = (CHR ''0'' \<le> c \<and> c \<le> CHR ''9'')"

definition isAlnum :: "char \<Rightarrow> bool" where
  "isAlnum c =
     ((CHR ''a'' \<le> c \<and> c \<le> CHR ''z'') \<or> (CHR ''A'' \<le> c \<and> c \<le> CHR ''Z'') \<or> isDigit c)"

text \<open>
  \<^verbatim>\<open>String.prototype.toLowerCase\<close> on Latin-1: A-Z and U+00C0 to U+00DE (without the
  multiplication sign U+00D7) move up by 32; every other code unit is unchanged.
\<close>

definition lower_char :: "char \<Rightarrow> char" where
  "lower_char c =
     (let n = (of_char c :: nat)
      in if (65 \<le> n \<and> n \<le> 90) \<or> (192 \<le> n \<and> n \<le> 222 \<and> n \<noteq> 215)
         then char_of (n + 32) else c)"

definition toLowerCase :: "string \<Rightarrow> string" where
  "toLowerCase s = map lower_char s"

text \<open>\<^verbatim>\<open>Array.prototype.join\<close> on strings.\<close>

fun join :: "string \<Rightarrow> string list \<Rightarrow> string" where
  "join sep [] = []"
| "join sep [x] = x"
| "join sep (x # y # ys) = x @ sep @ join sep (y # ys)"

text \<open>\<^verbatim>\<open>String.prototype.endsWith\<close>.\<close>

definition endsWith :: "string \<Rightarrow> string \<Rightarrow> bool" where
  "endsWith s suffix = (length suffix \<le> length s \<and> drop (length s - length suffix) s = suffix)"

text \<open>Decimal rendering of a non-negative integer (\<^verbatim>\<open>Number.prototype.toString\<close>).\<close>

definition digit_char :: "nat \<Rightarrow> char" where
  "digit_char d = char_of (48 + d)"

fun nat_to_string :: "nat \<Rightarrow> string" where
  "nat_to_string n =
     (if n < 10 then [digit_char n] else nat_to_string (n div 10) @ [digit_char (n mod 10)])"

declare nat_to_string.simps [simp del]

definition int_to_string :: "int \<Rightarrow> string" where
  "int_to_string n = (if n < 0 then CHR ''-'' # nat_to_string (nat (- n)) else nat_to_string (nat n))"

text \<open>
  The values that requests, recordings and parsed files hold.  An object is the list of its
  own enumerable properties in enumeration order; \<open>JNum n\<close> is the integer-valued number
  \<open>n\<close>.  \<open>JUndefined\<close> is the value of a missing property.
\<close>

datatype jsval =
    JUndefined
  | JNull
  | JBool bool
  | JNum int
  | JStr string
  | JArr "jsval list"
  | JObj "(string \<times> jsval) list"

text \<open>\<^verbatim>\<open>Boolean(v)\<close>: the falsy values are undefined, null, false, 0 and the empty string.\<close>

fun truthy :: "jsval \<Rightarrow> bool" where
  "truthy JUndefined = False"
| "truthy JNull = False"
| "truthy (JBool b) = b"
| "truthy (JNum n) = (n \<noteq> 0)"
| "truthy (JStr s) = (s \<noteq> [])"
| "truthy (JArr xs) = True"
| "truthy (JObj ps) = True"

text \<open>
  \<^verbatim>\<open>String(v)\<close>, as template literals and \<^verbatim>\<open>URLSearchParams\<close> apply it.  An array
  joins its elements with a comma, rendering null and undefined elements as the empty
  string; a plain object renders as \<^verbatim>\<open>[object Object]\<close>.  The decimal rendering of a
  number is the one JavaScript gives below \<open>10\<^sup>2\<^sup>1\<close> in absolute value.
\<close>

fun ToString :: "jsval \<Rightarrow> string" where
  "ToString JUndefined = ''undefined''"
| "ToString JNull = ''null''"
| "ToString (JBool b) = (if b then ''true'' else ''false'')"
| "ToString (JNum n) = int_to_string n"
| "ToString (JStr s) = s"
| "ToString (JArr xs) =
     join '','' (map (\<lambda>x. if x = JNull \<or> x = JUndefined then [] else ToString x) xs)"
| "ToString (JObj ps) = ''[object Object]''"

text \<open>Property read \<^verbatim>\<open>v.name\<close>: undefined unless \<open>v\<close> is an object that has the property.\<close>

fun get_prop :: "jsval \<Rightarrow> string \<Rightarrow> jsval" where
  "get_prop (JObj ps) name = (case map_of ps name of Some v \<Rightarrow> v | None \<Rightarrow> JUndefined)"
| "get_prop v name = JUndefined"

section \<open>Regular expressions\<close>

text \<open>
  \<^verbatim>\<open>matchesPattern\<close> hands the pattern to \<^verbatim>\<open>new RegExp\<close> (no flags) and calls
  \<^verbatim>\<open>test\<close>.  The model covers this fragment of the pattern syntax, read as ECMAScript
  reads it without the \<^verbatim>\<open>u\<close> flag: ordinary characters, \<^verbatim>\<open>.\<close>, the assertions
  \<^verbatim>\<open>^\<close> and \<^verbatim>\<open>$\<close>, alternation, capturing and \<^verbatim>\<open>(?:)\<close> groups, the quantifiers
  \<^verbatim>\<open>* + ? {n} {n,} {n,m}\<close> with their lazy forms, character classes, the class escapes
  \<^verbatim>\<open>\d \D \w \W \s \S\<close>, the control escapes \<^verbatim>\<open>\t \n \v \f \r\<close> and the identity escape
  of a character that is not a letter or digit.  Everything else (back-references,
  look-around, named groups, the remaining letter and digit escapes) is \<open>Unsupported\<close>.

  Without back-references, whether \<^verbatim>\<open>test\<close> succeeds depends only on which end
  positions a sub-expression can reach from a start position, so greedy and lazy
  quantifiers and capturing and non-capturing groups need not be told apart.
\<close>

datatype re =
    Lit char
  | Dot
  | Cls bool "(char \<times> char) list"
  | Bol
  | Eol
  | EmptyRe
  | Cat re re
  | Alt re re
  | Star re

datatype tok =
    TAtom re
  | TAssert re
  | TStar
  | TPlus
  | TQuest
  | TRep nat "nat option"
  | TOpen
  | TClose
  | TBar

text \<open>The line terminators that \<^verbatim>\<open>.\<close> does not match (U+2028 and U+2029 lie outside Latin-1).\<close>

definition lineTerminator :: "char \<Rightarrow> bool" where
  "lineTerminator c = (c = CHR 0x0A \<or> c = CHR 0x0D)"

definition digitRanges :: "(char \<times> char) list" where
  "digitRanges = [(CHR ''0'', CHR ''9'')]"

definition nonDigitRanges :: "(char \<times> char) list" where
  "nonDigitRanges = [(CHR 0x00, CHR 0x2F), (CHR 0x3A, CHR 0xFF)]"

definition wordRanges :: "(char \<times> char) list" where
  "wordRanges =
     [(CHR ''a'', CHR ''z''), (CHR ''A'', CHR ''Z''), (CHR ''0'', CHR ''9''), (CHR ''_'', CHR ''_'')]"

definition nonWordRanges :: "(char \<times> char) list" where
  "nonWordRanges =
     [(CHR 0x00, CHR 0x2F), (CHR 0x3A, CHR 0x40), (CHR 0x5B, CHR 0x5E), (CHR 0x60, CHR 0x60),
      (CHR 0x7B, CHR 0xFF)]"

definition spaceRanges :: "(char \<times> char) list" where
  "spaceRanges = [(CHR 0x09, CHR 0x0D), (CHR 0x20, CHR 0x20), (CHR 0xA0, CHR 0xA0)]"

definition nonSpaceRanges :: "(char \<times> char) list" where
  "nonSpaceRanges =
     [(CHR 0x00, CHR 0x08), (CHR 0x0E, CHR 0x1F), (CHR 0x21, CHR 0x9F), (CHR 0xA1, CHR 0xFF)]"

definition inRanges :: "(char \<times> char) list \<Rightarrow> char \<Rightarrow> bool" where
  "inRanges rs c = list_ex (\<lambda>(lo, hi). lo \<le> c \<and> c \<le> hi) rs"

subsection \<open>Reading a pattern\<close>

text \<open>
  The members of a character class: a character, the unescaped \<^verbatim>\<open>-\<close> (which may be a
  range operator), or the set of a class escape.
\<close>

datatype catom = CChar char | CDash | CSet "(char \<times> char) list"

text \<open>
  The escapes shared by atoms and classes; \<open>d\<close> is the character after the backslash and
  \<open>None\<close> means a letter or digit escape outside the fragment.
\<close>

definition escape_common :: "char \<Rightarrow> catom option" where
  "escape_common d =
     (if d = CHR ''d'' then Some (CSet digitRanges)
      else if d = CHR ''D'' then Some (CSet nonDigitRanges)
      else if d = CHR ''w'' then Some (CSet wordRanges)
      else if d = CHR ''W'' then Some (CSet nonWordRanges)
      else if d = CHR ''s'' then Some (CSet spaceRanges)
      else if d = CHR ''S'' then Some (CSet nonSpaceRanges)
      else if d = CHR ''t'' then Some (CChar (CHR 0x09))
      else if d = CHR ''n'' then Some (CChar (CHR 0x0A))
      else if d = CHR ''v'' then Some (CChar (CHR 0x0B))
      else if d = CHR ''f'' then Some (CChar (CHR 0x0C))
      else if d = CHR ''r'' then Some (CChar (CHR 0x0D))
      else if isAlnum d then None
      else Some (CChar d))"

definition atom_escape :: "char \<Rightarrow> error + re" where
  "atom_escape d =
     (case escape_common d of
        Some (CChar c) \<Rightarrow> Inr (Lit c)
      | Some (CSet rs) \<Rightarrow> Inr (Cls False rs)
      | _ \<Rightarrow> Inl Unsupported)"

definition class_escape :: "char \<Rightarrow> error + catom" where
  "class_escape d =
     (if d = CHR ''b'' then Inr (CChar (CHR 0x08))
      else case escape_common d of Some a \<Rightarrow> Inr a | None \<Rightarrow> Inl Unsupported)"

text \<open>
  The members of a class up to the closing bracket, with the number of characters read
  (the bracket included).  A class that is not closed is a syntax error.
\<close>

fun class_atoms :: "string \<Rightarrow> error + (catom list \<times> nat)" where
  "class_atoms [] = Inl SyntaxError"
| "class_atoms (c # s) =
     (if c = CHR '']'' then Inr ([], 1)
      else if c = CHR 0x5C then
        (case s of
           [] \<Rightarrow> Inl SyntaxError
         | d # s' \<Rightarrow>
             (case class_escape d of
                Inl e \<Rightarrow> Inl e
              | Inr a \<Rightarrow>
                  (case class_atoms s' of
                     Inl e \<Rightarrow> Inl e
                   | Inr (as, n) \<Rightarrow> Inr (a # as, n + 2))))
      else
        (case class_atoms s of
           Inl e \<Rightarrow> Inl e
         | Inr (as, n) \<Rightarrow> Inr ((if c = CHR ''-'' then CDash else CChar c) # as, n + 1)))"

fun atom_char :: "catom \<Rightarrow> char option" where
  "atom_char (CChar c) = Some c"
| "atom_char CDash = Some (CHR ''-'')"
| "atom_char (CSet rs) = None"

fun atom_ranges :: "catom \<Rightarrow> (char \<times> char) list" where
  "atom_ranges (CChar c) = [(c, c)]"
| "atom_ranges CDash = [(CHR ''-'', CHR ''-'')]"
| "atom_ranges (CSet rs) = rs"

text \<open>
  A member, a dash and a member form a range; a range out of order is a syntax error, and
  a range with a class escape as an end is left outside the fragment.
\<close>

fun class_ranges :: "catom list \<Rightarrow> error + (char \<times> char) list" where
  "class_ranges (a # CDash # b # rest) =
     (case (atom_char a, atom_char b) of
        (Some lo, Some hi) \<Rightarrow>
          (if hi < lo then Inl SyntaxError
           else case class_ranges rest of Inl e \<Rightarrow> Inl e | Inr rs \<Rightarrow> Inr ((lo, hi) # rs))
      | _ \<Rightarrow> Inl Unsupported)"
| "class_ranges (a # rest) =
     (case class_ranges rest of Inl e \<Rightarrow> Inl e | Inr rs \<Rightarrow> Inr (atom_ranges a @ rs))"
| "class_ranges [] = Inr []"

definition char_class :: "string \<Rightarrow> error + (re \<times> nat)" where
  "char_class s =
     (let neg = (case s of c # _ \<Rightarrow> c = CHR ''^'' | [] \<Rightarrow> False);
          k = (if neg then 1 else 0)
      in case class_atoms (drop k s) of
           Inl e \<Rightarrow> Inl e
         | Inr (as, n) \<Rightarrow>
             (case class_ranges as of
                Inl e \<Rightarrow> Inl e
              | Inr rs \<Rightarrow> Inr (Cls neg rs, k + n)))"

definition digits_value :: "string \<Rightarrow> nat" where
  "digits_value ds = foldl (\<lambda>a c. 10 * a + (of_char c - 48)) 0 ds"

text \<open>
  A braced quantifier after the opening brace: the bounds and the number of characters
  read.  Text that is not of the form \<^verbatim>\<open>n}\<close>, \<^verbatim>\<open>n,}\<close> or \<^verbatim>\<open>n,m}\<close> is no quantifier, and
  the brace is then an ordinary character.
\<close>

definition braces :: "string \<Rightarrow> (nat \<times> nat option \<times> nat) option" where
  "braces s =
     (let d1 = takeWhile isDigit s; r1 = dropWhile isDigit s
      in if d1 = [] then None
         else case r1 of
                [] \<Rightarrow> None
              | c # r2 \<Rightarrow>
                  if c = CHR ''}'' then Some (digits_value d1, Some (digits_value d1), length d1 + 1)
                  else if c = CHR '','' then
                    (let d2 = takeWhile isDigit r2
                     in case dropWhile isDigit r2 of
                          [] \<Rightarrow> None
                        | e # _ \<Rightarrow>
                            if e = CHR ''}'' then
                              Some (digits_value d1,
                                    if d2 = [] then None else Some (digits_value d2),
                                    length d1 + 1 + length d2 + 1)
                            else None)
                  else None)"

text \<open>A \<^verbatim>\<open>?\<close> after a quantifier makes it lazy and belongs to it.\<close>

definition lazy_mark :: "string \<Rightarrow> nat" where
  "lazy_mark s = (case s of c # _ \<Rightarrow> if c = CHR ''?'' then 1 else 0 | [] \<Rightarrow> 0)"

text \<open>
  The token that starts with the character \<open>c\<close>, and how many characters of the rest \<open>s\<close>
  belong to it.
\<close>

definition token_at :: "char \<Rightarrow> string \<Rightarrow> error + (tok \<times> nat)" where
  "token_at c s =
     (if c = CHR 0x5C then
        (case s of
           [] \<Rightarrow> Inl SyntaxError
         | d # _ \<Rightarrow> (case atom_escape d of Inl e \<Rightarrow> Inl e | Inr a \<Rightarrow> Inr (TAtom a, 1)))
      else if c = CHR ''.'' then Inr (TAtom Dot, 0)
      else if c = CHR ''^'' then Inr (TAssert Bol, 0)
      else if c = CHR ''$'' then Inr (TAssert Eol, 0)
      else if c = CHR ''('' then
        (case s of
           [] \<Rightarrow> Inr (TOpen, 0)
         | d # s' \<Rightarrow>
             if d = CHR ''?'' then
               (case s' of
                  [] \<Rightarrow> Inl Unsupported
                | e # _ \<Rightarrow> if e = CHR '':'' then Inr (TOpen, 2) else Inl Unsupported)
             else Inr (TOpen, 0))
      else if c = CHR '')'' then Inr (TClose, 0)
      else if c = CHR ''|'' then Inr (TBar, 0)
      else if c = CHR ''*'' then Inr (TStar, lazy_mark s)
      else if c = CHR ''+'' then Inr (TPlus, lazy_mark s)
      else if c = CHR ''?'' then Inr (TQuest, lazy_mark s)
      else if c = CHR ''{'' then
        (case braces s of
           None \<Rightarrow> Inr (TAtom (Lit c), 0)
         | Some (lo, hi, n) \<Rightarrow> Inr (TRep lo hi, n + lazy_mark (drop n s)))
      else if c = CHR ''['' then
        (case char_class s of Inl e \<Rightarrow> Inl e | Inr (a, n) \<Rightarrow> Inr (TAtom a, n))
      else Inr (TAtom (Lit c), 0))"

text \<open>The tokens of a pattern; \<open>k\<close> characters are still to be skipped.\<close>

fun lexs :: "nat \<Rightarrow> string \<Rightarrow> error + tok list" where
  "lexs k [] = Inr []"
| "lexs (Suc k) (c # s) = lexs k s"
| "lexs 0 (c # s) =
     (case token_at c s of
        Inl e \<Rightarrow> Inl e
      | Inr (t, n) \<Rightarrow> (case lexs n s of Inl e \<Rightarrow> Inl e | Inr ts \<Rightarrow> Inr (t # ts)))"

definition mk_seq :: "re list \<Rightarrow> re" where
  "mk_seq rs = foldr Cat rs EmptyRe"

fun mk_alt :: "re list \<Rightarrow> re" where
  "mk_alt [] = EmptyRe"
| "mk_alt [a] = a"
| "mk_alt (a # as) = Alt a (mk_alt as)"

text \<open>
  A group under construction holds its finished alternatives and the terms of the current
  one, both latest first.
\<close>

definition close_frame :: "re list \<Rightarrow> re list \<Rightarrow> re" where
  "close_frame alts seq = mk_alt (rev (mk_seq (rev seq) # alts))"

primrec power_re :: "re \<Rightarrow> nat \<Rightarrow> re \<Rightarrow> re" where
  "power_re a 0 k = k"
| "power_re a (Suc n) k = Cat a (power_re a n k)"

primrec upto_re :: "re \<Rightarrow> nat \<Rightarrow> re" where
  "upto_re a 0 = EmptyRe"
| "upto_re a (Suc n) = Alt (Cat a (upto_re a n)) EmptyRe"

definition repeat_re :: "re \<Rightarrow> nat \<Rightarrow> nat option \<Rightarrow> re" where
  "repeat_re a lo hi =
     (case hi of None \<Rightarrow> power_re a lo (Star a) | Some h \<Rightarrow> power_re a lo (upto_re a (h - lo)))"

text \<open>
  The parser keeps the stack of enclosing groups, the current group, and whether the last
  term may take a quantifier.  A quantifier with nothing to repeat, bounds out of order, an
  unmatched parenthesis and an unterminated group are syntax errors.
\<close>

fun parse :: "(re list \<times> re list) list \<Rightarrow> re list \<Rightarrow> re list \<Rightarrow> bool \<Rightarrow> tok list \<Rightarrow> error + re" where
  "parse stack alts seq q [] =
     (if stack = [] then Inr (close_frame alts seq) else Inl SyntaxError)"
| "parse stack alts seq q (TAtom a # ts) = parse stack alts (a # seq) True ts"
| "parse stack alts seq q (TAssert a # ts) = parse stack alts (a # seq) False ts"
| "parse stack alts seq q (TStar # ts) =
     (case seq of
        a # seq' \<Rightarrow> if q then parse stack alts (Star a # seq') False ts else Inl SyntaxError
      | [] \<Rightarrow> Inl SyntaxError)"
| "parse stack alts seq q (TPlus # ts) =
     (case seq of
        a # seq' \<Rightarrow> if q then parse stack alts (Cat a (Star a) # seq') False ts else Inl SyntaxError
      | [] \<Rightarrow> Inl SyntaxError)"
| "parse stack alts seq q (TQuest # ts) =
     (case seq of
        a # seq' \<Rightarrow> if q then parse stack alts (Alt a EmptyRe # seq') False ts else Inl SyntaxError
      | [] \<Rightarrow> Inl SyntaxError)"
| "parse stack alts seq q (TRep lo hi # ts) =
     (case seq of
        a # seq' \<Rightarrow>
          if q \<and> (case hi of None \<Rightarrow> True | Some h \<Rightarrow> lo \<le> h)
          then parse stack alts (repeat_re a lo hi # seq') False ts
          else Inl SyntaxError
      | [] \<Rightarrow> Inl SyntaxError)"
| "parse stack alts seq q (TOpen # ts) = parse ((alts, seq) # stack) [] [] False ts"
| "parse stack alts seq q (TClose # ts) =
     (case stack of
        [] \<Rightarrow> Inl SyntaxError
      | (alts', seq') # stack' \<Rightarrow> parse stack' alts' (close_frame alts seq # seq') True ts)"
| "parse stack alts seq q (TBar # ts) = parse stack (mk_seq (rev seq) # alts) [] False ts"

definition RegExp_new :: "string \<Rightarrow> error + re" where
  "RegExp_new src = (case lexs 0 src of Inl e \<Rightarrow> Inl e | Inr ts \<Rightarrow> parse [] [] [] False ts)"

subsection \<open>Matching\<close>

text \<open>
  \<open>ends r s i\<close> lists the positions at which a match of \<open>r\<close> that starts at position \<open>i\<close>
  of \<open>s\<close> can end.  An iteration of a starred expression that consumes nothing reaches no
  new position, so only iterations that advance are followed.
\<close>

function (sequential) ends :: "re \<Rightarrow> string \<Rightarrow> nat \<Rightarrow> nat list" where
  "ends (Lit c) s i = (if i < length s \<and> s ! i = c then [Suc i] else [])"
| "ends Dot s i = (if i < length s \<and> \<not> lineTerminator (s ! i) then [Suc i] else [])"
| "ends (Cls neg rs) s i =
     (if i < length s \<and> (inRanges rs (s ! i) \<noteq> neg) then [Suc i] else [])"
| "ends Bol s i = (if i = 0 then [i] else [])"
| "ends Eol s i = (if i = length s then [i] else [])"
| "ends EmptyRe s i = [i]"
| "ends (Cat a b) s i = remdups (concat (map (\<lambda>j. ends b s j) (ends a s i)))"
| "ends (Alt a b) s i = remdups (ends a s i @ ends b s i)"
| "ends (Star a) s i =
     remdups (i # concat (map (\<lambda>j. ends (Star a) s j)
                            (filter (\<lambda>j. i < j \<and> j \<le> length s) (ends a s i))))"
  by pat_completeness auto
termination
  by (relation "measures [\<lambda>(r, s, i). size r, \<lambda>(r, s, i). length s - i]") auto

text \<open>\<^verbatim>\<open>regex.test(s)\<close> without flags: a match may start at any position of \<open>s\<close>.\<close>

definition RegExp_test :: "re \<Rightarrow> string \<Rightarrow> bool" where
  "RegExp_test r s = list_ex (\<lambda>i. ends r s i \<noteq> []) [0..<Suc (length s)]"

section \<open>Request filtering\<close>

text \<open>\<^verbatim>\<open>pattern.replace(/\*/g, '.*')\<close>.\<close>

definition replace_stars :: "string \<Rightarrow> string" where
  "replace_stars pattern = concat (map (\<lambda>c. if c = CHR ''*'' then ''.*'' else [c]) pattern)"

definition matchesPattern :: "string \<Rightarrow> string \<Rightarrow> error + bool" where
  "matchesPattern url pattern =
     (case RegExp_new (replace_stars pattern) of
        Inl e \<Rightarrow> Inl e
      | Inr regex \<Rightarrow> Inr (RegExp_test regex url))"

text \<open>
  \<^verbatim>\<open>Array.prototype.some\<close> with a callback that may throw: the patterns are tried in
  order, the first \<open>true\<close> ends the scan, and an exception ends it as well.
\<close>

fun some_pattern :: "(string \<Rightarrow> error + bool) \<Rightarrow> string list \<Rightarrow> error + bool" where
  "some_pattern f [] = Inr False"
| "some_pattern f (p # ps) =
     (case f p of
        Inl e \<Rightarrow> Inl e
      | Inr b \<Rightarrow> if b then Inr True else some_pattern f ps)"

record filter_config =
  methods :: "string list"
  urlPatterns :: "string list"
  excludePatterns :: "string list"

record matching_config =
  includeQuery :: bool
  includeHeaders :: bool
  includeBody :: bool
  caseSensitive :: bool

record config =
  mode :: string
  recordingsDir :: string
  namingPattern :: string
  matching :: matching_config
  filters :: filter_config

text \<open>
  The request as the hosting framework presents it: \<open>query\<close> and \<open>headers\<close> are objects,
  given as their property lists; \<open>body\<close> is \<open>JUndefined\<close> when no body was parsed.
\<close>

record request =
  method' :: string
  url :: string
  path :: string
  query :: "(string \<times> jsval) list"
  headers :: "(string \<times> jsval) list"
  body :: jsval

text \<open>What \<^verbatim>\<open>saveRecording\<close> reads from the response object.\<close>

record response =
  statusCode :: int
  getHeaders :: "(string \<times> jsval) list"

text \<open>The middleware instance: its configuration and the filename counter.\<close>

record middleware =
  config :: config
  counter :: nat

definition matchesFilters :: "request \<Rightarrow> filter_config \<Rightarrow> error + bool" where
  "matchesFilters req fs =
     (if method' req \<notin> set (methods fs) then Inr False
      else
        case some_pattern
               (\<lambda>pattern. if pattern = ''*'' then Inr True else matchesPattern (path req) pattern)
               (urlPatterns fs) of
          Inl e \<Rightarrow> Inl e
        | Inr urlMatches \<Rightarrow>
            if \<not> urlMatches then Inr False
            else
              (case some_pattern (\<lambda>pattern. matchesPattern (path req) pattern)
                      (excludePatterns fs) of
                 Inl e \<Rightarrow> Inl e
               | Inr shouldExclude \<Rightarrow> Inr (\<not> shouldExclude)))"

definition shouldRecord :: "middleware \<Rightarrow> request \<Rightarrow> error + bool" where
  "shouldRecord this req = matchesFilters req (filters (config this))"

definition shouldReplay :: "middleware \<Rightarrow> request \<Rightarrow> error + bool" where
  "shouldReplay this req = matchesFilters req (filters (config this))"

section \<open>Key derivation\<close>

text \<open>
  The platform functions that the middleware calls and that are not modelled further:
  \<^verbatim>\<open>JSON.parse\<close> (\<open>None\<close> when it throws), \<^verbatim>\<open>JSON.stringify(value, null, space)\<close>
  and the hexadecimal MD5 digest of a string.  Every theorem below holds for every such
  platform.
\<close>

record platform =
  JSON_parse :: "string \<Rightarrow> jsval option"
  JSON_stringify :: "jsval \<Rightarrow> nat \<Rightarrow> string"
  md5_hex :: "string \<Rightarrow> string"

text \<open>
  \<^verbatim>\<open>new URLSearchParams(query).toString()\<close>: the form-urlencoded serialisation.  Names
  and values are turned into strings, encoded in UTF-8, and every byte except the ASCII
  letters, digits and \<^verbatim>\<open>* - . _\<close> is percent-encoded, a space becoming \<^verbatim>\<open>+\<close>.
\<close>

definition hex_digit :: "nat \<Rightarrow> char" where
  "hex_digit d = (if d < 10 then char_of (48 + d) else char_of (55 + d))"

definition percent_byte :: "nat \<Rightarrow> string" where
  "percent_byte b = [CHR ''%'', hex_digit (b div 16), hex_digit (b mod 16)]"

definition utf8_bytes :: "char \<Rightarrow> nat list" where
  "utf8_bytes c =
     (let n = (of_char c :: nat) in if n < 128 then [n] else [192 + n div 64, 128 + n mod 64])"

definition form_encode_char :: "char \<Rightarrow> string" where
  "form_encode_char c =
     (if isAlnum c \<or> c = CHR ''*'' \<or> c = CHR ''-'' \<or> c = CHR ''.'' \<or> c = CHR ''_'' then [c]
      else if c = CHR '' '' then ''+''
      else concat (map percent_byte (utf8_bytes c)))"

definition form_encode :: "string \<Rightarrow> string" where
  "form_encode s = concat (map form_encode_char s)"

definition URLSearchParams_toString :: "(string \<times> jsval) list \<Rightarrow> string" where
  "URLSearchParams_toString q =
     join ''&'' (map (\<lambda>(k, v). form_encode k @ ''='' @ form_encode (ToString v)) q)"

text \<open>
  The default \<^verbatim>\<open>Array.prototype.sort\<close> compares the string forms of the elements; the
  string form of an entry \<^verbatim>\<open>[name, value]\<close> joins the two with a comma.  The sort is
  stable.
\<close>

definition entry_sort_key :: "string \<times> jsval \<Rightarrow> string" where
  "entry_sort_key e =
     fst e @ '','' @ (if snd e = JNull \<or> snd e = JUndefined then [] else ToString (snd e))"

definition relevantHeaders :: "(string \<times> jsval) list \<Rightarrow> string" where
  "relevantHeaders hs =
     join ''|''
       (map (\<lambda>(k, v). k @ '':'' @ ToString v)
          (sort_key entry_sort_key
             (filter (\<lambda>(key, v). toLowerCase key \<notin> set [''host'', ''user-agent'', ''accept-encoding''])
                hs)))"

definition generateRequestKey :: "platform \<Rightarrow> middleware \<Rightarrow> request \<Rightarrow> string" where
  "generateRequestKey P this req =
     (let m = matching (config this);
          key0 = method' req @ '':'' @ path req;
          key1 = (if includeQuery m \<and> length (query req) > 0
                  then key0 @ ''?'' @ URLSearchParams_toString (query req) else key0);
          key2 = (if includeHeaders m \<and> relevantHeaders (headers req) \<noteq> []
                  then key1 @ ''|'' @ relevantHeaders (headers req) else key1);
          key3 = (if includeBody m \<and> truthy (body req)
                  then key2 @ ''|body:'' @ md5_hex P (JSON_stringify P (body req) 0) else key2)
      in if caseSensitive m then key3 else toLowerCase key3)"

section \<open>Filename rendering\<close>

text \<open>
  \<^verbatim>\<open>String.prototype.replace\<close> with a global regular expression that is a literal
  character sequence, and a replacement string.  In the replacement, \<^verbatim>\<open>$$\<close> stands for
  a dollar sign, \<^verbatim>\<open>$&\<close> for the matched text, and \<^verbatim>\<open>$`\<close> and \<^verbatim>\<open>$'\<close> for the text
  before and after the match; there are no capture groups, so any other \<^verbatim>\<open>$\<close> is kept.
\<close>

fun get_substitution :: "string \<Rightarrow> string \<Rightarrow> string \<Rightarrow> string \<Rightarrow> string" where
  "get_substitution matched pre post [] = []"
| "get_substitution matched pre post (c # t) =
     (if c = CHR ''$'' then
        (case t of
           [] \<Rightarrow> [c]
         | d # t' \<Rightarrow>
             if d = CHR ''$'' then CHR ''$'' # get_substitution matched pre post t'
             else if d = CHR ''&'' then matched @ get_substitution matched pre post t'
             else if d = CHR 0x60 then pre @ get_substitution matched pre post t'
             else if d = CHR 0x27 then post @ get_substitution matched pre post t'
             else c # get_substitution matched pre post t)
      else c # get_substitution matched pre post t)"

text \<open>
  The scan goes left to right over the subject; \<open>k\<close> characters of a match are still to be
  skipped and \<open>pre\<close> is the text already passed.  The needle is not empty.
\<close>

fun replace_scan :: "string \<Rightarrow> string \<Rightarrow> nat \<Rightarrow> string \<Rightarrow> string \<Rightarrow> string" where
  "replace_scan needle repl k pre [] = []"
| "replace_scan needle repl (Suc k) pre (c # s) = replace_scan needle repl k (pre @ [c]) s"
| "replace_scan needle repl 0 pre (c # s) =
     (if take (length needle) (c # s) = needle then
        get_substitution needle pre (drop (length needle) (c # s)) repl
          @ replace_scan needle repl (length needle - 1) (pre @ [c]) s
      else c # replace_scan needle repl 0 (pre @ [c]) s)"

definition replace_all :: "string \<Rightarrow> string \<Rightarrow> string \<Rightarrow> string" where
  "replace_all needle repl s = replace_scan needle repl 0 [] s"

text \<open>The three replacements that turn the request path into the \<^verbatim>\<open>{url}\<close> text.\<close>

definition replace_non_alnum :: "string \<Rightarrow> string" where
  "replace_non_alnum s = map (\<lambda>c. if isAlnum c then c else CHR ''_'') s"

text \<open>\<^verbatim>\<open>replace(/_+/g, '_')\<close>: every maximal run of underscores becomes one underscore.\<close>

fun collapse_underscores :: "string \<Rightarrow> string" where
  "collapse_underscores [] = []"
| "collapse_underscores [c] = [c]"
| "collapse_underscores (c # d # s) =
     (if c = CHR ''_'' \<and> d = CHR ''_'' then collapse_underscores (d # s)
      else c # collapse_underscores (d # s))"

text \<open>
  \<^verbatim>\<open>replace(/^_|_$/g, '')\<close>: one underscore at the start is removed, and one underscore
  at the end of what follows it.
\<close>

definition strip_end :: "string \<Rightarrow> string" where
  "strip_end s = (if s \<noteq> [] \<and> last s = CHR ''_'' then butlast s else s)"

definition strip_underscores :: "string \<Rightarrow> string" where
  "strip_underscores s =
     (case s of
        [] \<Rightarrow> []
      | c # t \<Rightarrow> if c = CHR ''_'' then strip_end t else strip_end s)"

definition url_text :: "string \<Rightarrow> string" where
  "url_text p = strip_underscores (collapse_underscores (replace_non_alnum p))"

text \<open>\<^verbatim>\<open>s.padStart(n, '0')\<close>.\<close>

definition padStart :: "string \<Rightarrow> nat \<Rightarrow> string" where
  "padStart s n = replicate (n - length s) (CHR ''0'') @ s"

text \<open>
  A reading of the clock, \<^verbatim>\<open>new Date()\<close>: the epoch milliseconds and the ISO-8601 text
  that the platform gives for it.
\<close>

record date =
  getTime :: int
  toISOString :: string

text \<open>\<^verbatim>\<open>s.split('T')[0]\<close>.\<close>

definition before_T :: "string \<Rightarrow> string" where
  "before_T s = takeWhile (\<lambda>c. c \<noteq> CHR ''T'') s"

text \<open>
  \<^verbatim>\<open>generateFilename\<close> increments the counter of the instance; the model returns the
  name together with the instance after the call.
\<close>

definition generateFilename :: "middleware \<Rightarrow> date \<Rightarrow> request \<Rightarrow> string \<times> middleware" where
  "generateFilename this now req =
     (let date = before_T (toISOString now);
          timestamp = getTime now;
          this' = this\<lparr>counter := counter this + 1\<rparr>;
          url = url_text (path req)
      in (replace_all ''{counter}'' (padStart (nat_to_string (counter this')) 4)
            (replace_all ''{timestamp}'' (int_to_string timestamp)
               (replace_all ''{date}'' date
                  (replace_all ''{url}'' url
                     (replace_all ''{method}'' (method' req) (namingPattern (config this)))))),
          this'))"

section \<open>The recordings store\<close>

text \<open>
  The part of the file system that the middleware touches: the entries below
  \<^verbatim>\<open>recordingsDir\<close>, keyed by the path relative to it as \<^verbatim>\<open>path.join\<close> receives it, in
  the order in which the platform enumerates them.  \<open>dir = None\<close> is a directory that
  cannot be read.  An entry is a file with its text, or something that
  \<^verbatim>\<open>readFileSync\<close> cannot read (a sub-directory).  \<open>refuses\<close> tells for which targets
  the platform rejects a write (no permission, no space, a missing intermediate
  directory).  Relative paths are compared as written, and a name without a slash is an
  entry directly under the directory.
\<close>

datatype node = File string | Directory

record fs =
  dir :: "(string \<times> node) list option"
  refuses :: "string \<Rightarrow> bool"

definition readdirSync :: "fs \<Rightarrow> string list option" where
  "readdirSync f =
     (case dir f of
        None \<Rightarrow> None
      | Some es \<Rightarrow> Some (filter (\<lambda>name. CHR ''/'' \<notin> set name) (map fst es)))"

definition existsSync :: "fs \<Rightarrow> string \<Rightarrow> bool" where
  "existsSync f name = (case dir f of None \<Rightarrow> False | Some es \<Rightarrow> map_of es name \<noteq> None)"

text \<open>\<^verbatim>\<open>fs.readFileSync(file, 'utf8')\<close>; \<open>None\<close> when it throws.\<close>

definition readFileSync :: "fs \<Rightarrow> string \<Rightarrow> string option" where
  "readFileSync f name =
     (case dir f of
        None \<Rightarrow> None
      | Some es \<Rightarrow> (case map_of es name of Some (File text) \<Rightarrow> Some text | _ \<Rightarrow> None))"

fun upsert :: "string \<Rightarrow> node \<Rightarrow> (string \<times> node) list \<Rightarrow> (string \<times> node) list" where
  "upsert name n [] = [(name, n)]"
| "upsert name n (e # es) = (if fst e = name then (name, n) # es else e # upsert name n es)"

text \<open>
  \<^verbatim>\<open>fs.writeFileSync(file, text)\<close>; \<open>None\<close> when it throws.  An existing file keeps its
  place in the enumeration and a new file is enumerated last.
\<close>

definition writeFileSync :: "fs \<Rightarrow> string \<Rightarrow> string \<Rightarrow> fs option" where
  "writeFileSync f name text =
     (case dir f of
        None \<Rightarrow> None
      | Some es \<Rightarrow>
          if refuses f name \<or> map_of es name = Some Directory then None
          else Some (f\<lparr>dir := Some (upsert name (File text) es)\<rparr>))"

text \<open>
  \<^verbatim>\<open>getRecordings\<close>: a file that cannot be read or parsed becomes \<open>null\<close>, and
  \<^verbatim>\<open>filter(Boolean)\<close> drops every falsy value.
\<close>

definition load_file :: "platform \<Rightarrow> fs \<Rightarrow> string \<Rightarrow> jsval" where
  "load_file P f file =
     (case readFileSync f file of
        None \<Rightarrow> JNull
      | Some text \<Rightarrow> (case JSON_parse P text of None \<Rightarrow> JNull | Some v \<Rightarrow> v))"

definition getRecordings :: "platform \<Rightarrow> fs \<Rightarrow> jsval list" where
  "getRecordings P f =
     (case readdirSync f of
        None \<Rightarrow> []
      | Some names \<Rightarrow>
          filter truthy
            (map (load_file P f) (filter (\<lambda>file. endsWith file ''.json'') names)))"

text \<open>
  \<^verbatim>\<open>findRecording\<close> returns the recording, or \<open>null\<close>, and the instance after the call.
\<close>

definition findRecording ::
  "platform \<Rightarrow> middleware \<Rightarrow> fs \<Rightarrow> date \<Rightarrow> request \<Rightarrow> jsval \<times> middleware" where
  "findRecording P this f now req =
     (let recordings = getRecordings P f;
          requestKey = generateRequestKey P this req
      in case find (\<lambda>recording. get_prop recording ''requestKey'' = JStr requestKey) recordings of
           Some recording \<Rightarrow> (recording, this)
         | None \<Rightarrow>
             (let (filename, this') = generateFilename this now req;
                  recordingFile = filename @ ''.json''
              in if existsSync f recordingFile then
                   (case readFileSync f recordingFile of
                      None \<Rightarrow> (JNull, this')
                    | Some text \<Rightarrow>
                        (case JSON_parse P text of
                           None \<Rightarrow> (JNull, this')
                         | Some v \<Rightarrow> (v, this')))
                 else (JNull, this')))"

text \<open>
  The recording that \<^verbatim>\<open>saveRecording\<close> builds; \<open>created\<close> is the clock reading of its
  timestamp.
\<close>

definition build_recording ::
  "platform \<Rightarrow> middleware \<Rightarrow> date \<Rightarrow> request \<Rightarrow> response \<Rightarrow> jsval \<Rightarrow> jsval" where
  "build_recording P this created req res responseBody =
     JObj
       [(''timestamp'', JStr (toISOString created)),
        (''request'',
           JObj
             [(''method'', JStr (method' req)),
              (''url'', JStr (url req)),
              (''path'', JStr (path req)),
              (''query'', JObj (query req)),
              (''headers'',
                 if includeHeaders (matching (config this)) then JObj (headers req) else JObj []),
              (''body'', if includeBody (matching (config this)) then body req else JUndefined)]),
        (''response'',
           JObj
             [(''status'', JNum (statusCode res)),
              (''headers'',
                 if includeHeaders (matching (config this)) then JObj (getHeaders res)
                 else JObj []),
              (''body'', responseBody)]),
        (''requestKey'', JStr (generateRequestKey P this req))]"

text \<open>
  \<^verbatim>\<open>saveRecording\<close> reads the clock for the timestamp and, in \<^verbatim>\<open>generateFilename\<close>,
  once more for the name.  A failed write is caught and leaves the store as it was.
\<close>

definition saveRecording ::
  "platform \<Rightarrow> middleware \<Rightarrow> fs \<Rightarrow> date \<Rightarrow> date \<Rightarrow> request \<Rightarrow> response \<Rightarrow> jsval
     \<Rightarrow> middleware \<times> fs" where
  "saveRecording P this f created now req res responseBody =
     (let recording = build_recording P this created req res responseBody;
          (filename, this') = generateFilename this now req;
          filepath = filename @ ''.json''
      in case writeFileSync f filepath (JSON_stringify P recording 2) of
           Some f' \<Rightarrow> (this', f')
         | None \<Rightarrow> (this', f))"

section \<open>The specification's readings\<close>

text \<open>
  A URL pattern read as literal text with wildcards: \<open>glob_prefix p s\<close> holds when a
  prefix of \<open>s\<close> is the pattern \<open>p\<close> with every \<^verbatim>\<open>*\<close> replaced by some sequence of
  characters, and \<open>glob_search p s\<close> when that holds for \<open>s\<close> from some position on.
\<close>

fun glob_prefix :: "string \<Rightarrow> string \<Rightarrow> bool" where
  "glob_prefix [] s = True"
| "glob_prefix (c # p) s =
     (if c = CHR ''*'' then
        glob_prefix p s \<or> (case s of [] \<Rightarrow> False | d # s' \<Rightarrow> glob_prefix (c # p) s')
      else (case s of [] \<Rightarrow> False | d # s' \<Rightarrow> c = d \<and> glob_prefix p s'))"

definition glob_search :: "string \<Rightarrow> string \<Rightarrow> bool" where
  "glob_search p s = list_ex (\<lambda>i. glob_prefix p (drop i s)) [0..<Suc (length s)]"

text \<open>The characters that \<^verbatim>\<open>new RegExp\<close> does not read as themselves.\<close>

definition isSyntaxChar :: "char \<Rightarrow> bool" where
  "isSyntaxChar c = (c \<in> set [CHR 0x5C, CHR ''.'', CHR ''^'', CHR ''$'', CHR ''('', CHR '')'',
      CHR ''|'', CHR ''*'', CHR ''+'', CHR ''?'', CHR ''{'', CHR ''[''])"

text \<open>A pattern of ordinary characters and wildcards, and a path without line breaks.\<close>

definition plain_pattern :: "string \<Rightarrow> bool" where
  "plain_pattern p = list_all (\<lambda>c. c = CHR ''*'' \<or> \<not> isSyntaxChar c) p"

definition single_line :: "string \<Rightarrow> bool" where
  "single_line s = list_all (\<lambda>c. \<not> lineTerminator c) s"

text \<open>
  The \<^verbatim>\<open>{url}\<close> text as the specification words it: every character outside
  \<^verbatim>\<open>[a-zA-Z0-9]\<close> becomes an underscore, runs of underscores become one, and the
  underscores at both ends are cut off.
\<close>

definition trim_underscores :: "string \<Rightarrow> string" where
  "trim_underscores s =
     rev (dropWhile (\<lambda>c. c = CHR ''_'') (rev (dropWhile (\<lambda>c. c = CHR ''_'') s)))"

definition sanitized_path :: "string \<Rightarrow> string" where
  "sanitized_path p =
     trim_underscores
       (collapse_underscores (map (\<lambda>c. if isAlnum c then c else CHR ''_'') p))"

text \<open>No two underscores stand side by side.\<close>

fun adjacent_free :: "string \<Rightarrow> bool" where
  "adjacent_free [] = True"
| "adjacent_free [c] = True"
| "adjacent_free (c # d # s) = (\<not> (c = CHR ''_'' \<and> d = CHR ''_'') \<and> adjacent_free (d # s))"

text \<open>
  What a recording looks like after \<^verbatim>\<open>JSON.stringify\<close> and \<^verbatim>\<open>JSON.parse\<close>: a property
  whose value is undefined is not written, and an undefined array element is written
  as \<open>null\<close>.
\<close>

fun json_image :: "jsval \<Rightarrow> jsval" where
  "json_image (JArr xs) = JArr (map (\<lambda>x. if x = JUndefined then JNull else json_image x) xs)"
| "json_image (JObj ps) =
     JObj (map (\<lambda>kv. (fst kv, json_image (snd kv))) (filter (\<lambda>kv. snd kv \<noteq> JUndefined) ps))"
| "json_image v = v"

text \<open>The \<^verbatim>\<open>*.json\<close> files that the platform enumerates before \<open>file\<close>.\<close>

definition earlier_files :: "fs \<Rightarrow> string \<Rightarrow> string list" where
  "earlier_files f file =
     (case readdirSync f of
        None \<Rightarrow> []
      | Some names \<Rightarrow>
          filter (\<lambda>n. endsWith n ''.json'') (takeWhile (\<lambda>n. n \<noteq> file) names))"

definition has_key :: "jsval \<Rightarrow> string \<Rightarrow> bool" where
  "has_key v key = (get_prop v ''requestKey'' = JStr key)"



text \<open>
  The steps of the key as the specification numbers them: the text of one query parameter,
  the query step, and the header and body steps that follow it.  \<open>unreserved\<close> are the
  characters that URL-encoding leaves as they are.
\<close>

definition pair_text :: "string \<times> jsval \<Rightarrow> string" where
  "pair_text kv = form_encode (fst kv) @ ''='' @ form_encode (ToString (snd kv))"

definition query_step :: "matching_config \<Rightarrow> (string \<times> jsval) list \<Rightarrow> string" where
  "query_step m q =
     (if includeQuery m \<and> q \<noteq> [] then ''?'' @ join ''&'' (map pair_text q) else [])"

definition later_steps ::
  "platform \<Rightarrow> matching_config \<Rightarrow> (string \<times> jsval) list \<Rightarrow> jsval \<Rightarrow> string" where
  "later_steps P m hs b =
     (if includeHeaders m \<and> relevantHeaders hs \<noteq> [] then ''|'' @ relevantHeaders hs else [])
     @ (if includeBody m \<and> truthy b then ''|body:'' @ md5_hex P (JSON_stringify P b 0) else [])"

definition unreserved :: "char \<Rightarrow> bool" where
  "unreserved c =
     (isAlnum c \<or> c = CHR ''*'' \<or> c = CHR ''-'' \<or> c = CHR ''.'' \<or> c = CHR ''_'')"

section \<open>A platform and sample data for the examples\<close>

text \<open>
  The examples run on a platform whose \<^verbatim>\<open>JSON.stringify\<close> writes a value as
  ECMAScript's serialisation does (undefined properties left out, the gap of \<open>space\<close>
  blanks per level), whose \<^verbatim>\<open>JSON.parse\<close> reads exactly the texts of the documents
  it is given, and whose digest knows the texts that the examples hash.
\<close>

definition json_escape_char :: "char \<Rightarrow> string" where
  "json_escape_char c =
     (if c = CHR 0x22 then [CHR 0x5C, CHR 0x22]
      else if c = CHR 0x5C then [CHR 0x5C, CHR 0x5C]
      else if c = CHR 0x08 then [CHR 0x5C, CHR ''b'']
      else if c = CHR 0x0C then [CHR 0x5C, CHR ''f'']
      else if c = CHR 0x0A then [CHR 0x5C, CHR ''n'']
      else if c = CHR 0x0D then [CHR 0x5C, CHR ''r'']
      else if c = CHR 0x09 then [CHR 0x5C, CHR ''t'']
      else if (of_char c :: nat) < 32 then
        [CHR 0x5C, CHR ''u'', CHR ''0'', CHR ''0'',
         lower_char (hex_digit (of_char c div 16)), lower_char (hex_digit (of_char c mod 16))]
      else [c])"

definition json_quote :: "string \<Rightarrow> string" where
  "json_quote s = CHR 0x22 # concat (map json_escape_char s) @ [CHR 0x22]"

fun json_text :: "string \<Rightarrow> string \<Rightarrow> jsval \<Rightarrow> string option" where
  "json_text gap indent JUndefined = None"
| "json_text gap indent JNull = Some ''null''"
| "json_text gap indent (JBool b) = Some (if b then ''true'' else ''false'')"
| "json_text gap indent (JNum n) = Some (int_to_string n)"
| "json_text gap indent (JStr s) = Some (json_quote s)"
| "json_text gap indent (JArr xs) =
     (let inner = indent @ gap;
          partial = map (\<lambda>x. case json_text gap inner x of None \<Rightarrow> ''null'' | Some t \<Rightarrow> t) xs
      in Some (if partial = [] then ''[]''
               else if gap = [] then ''['' @ join '','' partial @ '']''
               else ''['' @ [CHR 0x0A] @ inner @ join ('','' @ [CHR 0x0A] @ inner) partial
                      @ [CHR 0x0A] @ indent @ '']''))"
| "json_text gap indent (JObj ps) =
     (let inner = indent @ gap;
          partial =
            concat (map (\<lambda>kv. case json_text gap inner (snd kv) of
                                  None \<Rightarrow> []
                                | Some t \<Rightarrow>
                                    [json_quote (fst kv) @ '':'' @ (if gap = [] then [] else '' '') @ t])
                      ps)
      in Some (if partial = [] then ''{}''
               else if gap = [] then ''{'' @ join '','' partial @ ''}''
               else ''{'' @ [CHR 0x0A] @ inner @ join ('','' @ [CHR 0x0A] @ inner) partial
                      @ [CHR 0x0A] @ indent @ ''}''))"

definition sample_stringify :: "jsval \<Rightarrow> nat \<Rightarrow> string" where
  "sample_stringify v space =
     (case json_text (replicate (min space 10) (CHR '' '')) [] v of
        None \<Rightarrow> ''undefined''
      | Some t \<Rightarrow> t)"

definition sample_parse :: "jsval list \<Rightarrow> string \<Rightarrow> jsval option" where
  "sample_parse docs text = find (\<lambda>d. sample_stringify d 2 = text \<or> sample_stringify d 0 = text) docs"

definition sample_md5 :: "string \<Rightarrow> string" where
  "sample_md5 text =
     (if text = ''{}'' then ''99914b932bd37a50b983c5e7c90ae93b''
      else ''d41d8cd98f00b204e9800998ecf8427e'')"

definition sample_platform :: "jsval list \<Rightarrow> platform" where
  "sample_platform docs =
     \<lparr> JSON_parse = sample_parse docs, JSON_stringify = sample_stringify, md5_hex = sample_md5 \<rparr>"

text \<open>The default configuration of \<^verbatim>\<open>loadConfig\<close>.\<close>

definition defaultConfig :: config where
  "defaultConfig =
     \<lparr> mode = ''off'',
       recordingsDir = ''./recordings'',
       namingPattern = ''{method}_{url}_{timestamp}'',
       matching =
         \<lparr> includeQuery = True, includeHeaders = False, includeBody = False,
           caseSensitive = False \<rparr>,
       filters =
         \<lparr> methods = [''GET'', ''POST'', ''PUT'', ''DELETE'', ''PATCH''],
           urlPatterns = [''*''],
           excludePatterns = [] \<rparr> \<rparr>"

definition new_middleware :: "config \<Rightarrow> middleware" where
  "new_middleware c = \<lparr> config = c, counter = 0 \<rparr>"


definition get_request :: "string \<Rightarrow> request" where
  "get_request p =
     \<lparr> method' = ''GET'', url = p, path = p, query = [],
       headers = [(''host'', JStr ''localhost:3456''), (''accept'', JStr ''*/*'')],
       body = JObj [] \<rparr>"

definition users_page_request :: request where
  "users_page_request =
     (get_request ''/api/users'')
       \<lparr> url := ''/api/users?page=1'', query := [(''page'', JStr ''1'')] \<rparr>"

definition ok_response :: response where
  "ok_response =
     \<lparr> statusCode = 200,
       getHeaders = [(''content-type'', JStr ''application/json; charset=utf-8'')] \<rparr>"

definition first_clock :: date where
  "first_clock = \<lparr> getTime = 1703123456789, toISOString = ''2023-12-21T01:50:56.789Z'' \<rparr>"

definition second_clock :: date where
  "second_clock = \<lparr> getTime = 1703123460000, toISOString = ''2023-12-21T01:51:00.000Z'' \<rparr>"

definition empty_store :: fs where
  "empty_store = \<lparr> dir = Some [], refuses = (\<lambda>name. False) \<rparr>"

text \<open>
  A recording of the request \<^verbatim>\<open>GET /api/users?page=1\<close> as it is read back from its
  file, and stores that hold it.
\<close>

definition users_recording :: jsval where
  "users_recording =
     json_image
       (build_recording (sample_platform []) (new_middleware defaultConfig) first_clock
          users_page_request ok_response (JStr ''[1,2,3]''))"

definition recorded_store :: fs where
  "recorded_store =
     \<lparr> dir = Some [(''GET_api_users_1703123456789.json'', File (sample_stringify users_recording 2))],
       refuses = (\<lambda>name. False) \<rparr>"

definition health_recording :: jsval where
  "health_recording =
     json_image
       (build_recording (sample_platform []) (new_middleware defaultConfig) second_clock
          (get_request ''/api/health'') ok_response (JStr ''ok''))"

text \<open>
  A directory with two recordings, a file that is cut off in the middle, a file of
  another kind and a sub-directory whose name ends in \<^verbatim>\<open>.json\<close>.
\<close>

definition mixed_store :: fs where
  "mixed_store =
     \<lparr> dir = Some
         [(''GET_api_users_1703123456789.json'', File (sample_stringify users_recording 2)),
          (''broken.json'', File ''{''),
          (''notes.txt'', File ''plain text''),
          (''archive.json'', Directory),
          (''GET_api_health_1703123460000.json'', File (sample_stringify health_recording 2))],
       refuses = (\<lambda>name. False) \<rparr>"

text \<open>
  The scan as the specification words it: the \<^verbatim>\<open>*.json\<close> files directly under the
  directory, in enumeration order, and for each of them the record it contributes, which
  is none when the file cannot be read or parsed (or holds a falsy value).
\<close>

definition scan_file :: "platform \<Rightarrow> fs \<Rightarrow> string \<Rightarrow> jsval list" where
  "scan_file P f file =
     (case readFileSync f file of
        None \<Rightarrow> []
      | Some text \<Rightarrow>
          (case JSON_parse P text of None \<Rightarrow> [] | Some v \<Rightarrow> if truthy v then [v] else []))"

definition json_files :: "(string \<times> node) list \<Rightarrow> string list" where
  "json_files es =
     filter (\<lambda>file. endsWith file ''.json'') (filter (\<lambda>name. CHR ''/'' \<notin> set name) (map fst es))"

text \<open>A request with a query that needs encoding.\<close>

definition search_request :: request where
  "search_request =
     (get_request ''/Search'')
       \<lparr> url := ''/Search?q=a+b%2Fc&tag=x&tag=y'',
         query := [(''q'', JStr ''a b/c''), (''tag'', JArr [JStr ''x'', JStr ''y''])] \<rparr>"

section \<open>The instance state\<close>

lemma generateFilename_state:
  "generateFilename this now req = (name, this') \<Longrightarrow> this' = this\<lparr>counter := counter this + 1\<rparr>"
  by (auto simp: generateFilename_def Let_def)

lemma config_generateFilename: "config (snd (generateFilename this now req)) = config this"
  by (simp add: generateFilename_def Let_def)

lemma config_findRecording: "config (snd (findRecording P this f now req)) = config this"
  by (auto simp: findRecording_def Let_def split: option.splits prod.splits
      dest!: generateFilename_state)

lemma config_saveRecording:
  "config (fst (saveRecording P this f created now req res b)) = config this"
  by (auto simp: saveRecording_def Let_def split: option.splits prod.splits
      dest!: generateFilename_state)

lemma key_depends_on_matching:
  "matching (config this1) = matching (config this2) \<Longrightarrow>
   generateRequestKey P this1 req = generateRequestKey P this2 req"
  by (simp add: generateRequestKey_def)

section \<open>Key derivation: determinism and case\<close>

text \<open>
  Claim C2.  The key is a function of the request and the matching configuration alone:
  two instances with the same matching configuration derive the same key for a request,
  whatever their counters, modes, filters and naming patterns are; and a call of
  \<^verbatim>\<open>generateFilename\<close>, \<^verbatim>\<open>findRecording\<close> or \<^verbatim>\<open>saveRecording\<close> in between, which
  changes the counter and the store, does not change the key that is derived afterwards.
  The function reads neither the clock nor the store and returns no changed instance.
\<close>

theorem generateRequestKey_deterministic:
  "(matching (config this1) = matching (config this2) \<longrightarrow>
      generateRequestKey P this1 req = generateRequestKey P this2 req)
   \<and> generateRequestKey P (snd (generateFilename this now r)) req = generateRequestKey P this req
   \<and> generateRequestKey P (snd (findRecording P this f now r)) req = generateRequestKey P this req
   \<and> generateRequestKey P (fst (saveRecording P this f created now r res b)) req
        = generateRequestKey P this req"
  by (intro conjI impI key_depends_on_matching)
    (simp_all only: config_generateFilename config_findRecording config_saveRecording)

theorem generateRequestKey_deterministic_witness:
  "generateRequestKey (sample_platform []) (new_middleware defaultConfig) users_page_request
     = ''get:/api/users?page=1''
   \<and> generateRequestKey (sample_platform [])
         \<lparr> config = defaultConfig\<lparr>mode := ''replay'', namingPattern := ''{counter}''\<rparr>,
           counter = 7 \<rparr>
         users_page_request
     = ''get:/api/users?page=1''"
proof -
  let ?a = "new_middleware defaultConfig"
  let ?b = "\<lparr> config = defaultConfig\<lparr>mode := ''replay'', namingPattern := ''{counter}''\<rparr>,
              counter = 7 \<rparr>"
  let ?P = "sample_platform []"
  have same: "matching (config ?a) = matching (config ?b)"
    by (simp add: new_middleware_def)
  have h1: "generateRequestKey ?P ?a users_page_request = generateRequestKey ?P ?b users_page_request"
    using same by (rule generateRequestKey_deterministic [THEN conjunct1, THEN mp])
  have h2: "generateRequestKey P ?a users_page_request = ''get:/api/users?page=1''" for P
    by code_simp
  have h3: "generateRequestKey ?P ?b users_page_request = ''get:/api/users?page=1''"
    using h1 [symmetric] h2 by (rule trans)
  show ?thesis using h2 h3 by (rule conjI)
qed

text \<open>
  Claim C3.  With \<open>caseSensitive\<close> false the key is the lower-cased key that the same
  request has under the same configuration with \<open>caseSensitive\<close> true.
\<close>

theorem case_insensitive_key_is_lowered:
  "generateRequestKey P
     (this\<lparr>config := (config this)\<lparr>matching :=
        (matching (config this))\<lparr>caseSensitive := False\<rparr>\<rparr>\<rparr>) req
   = toLowerCase
       (generateRequestKey P
          (this\<lparr>config := (config this)\<lparr>matching :=
             (matching (config this))\<lparr>caseSensitive := True\<rparr>\<rparr>\<rparr>) req)"
  by (simp add: generateRequestKey_def Let_def)

section \<open>Patterns are regular expressions\<close>

text \<open>
  Claim C10.  The characters of a pattern other than \<^verbatim>\<open>*\<close> are regular-expression
  syntax: the pattern \<^verbatim>\<open>/v1.0\<close> compiles to an expression whose fourth term is the
  any-character dot, so it matches the path \<^verbatim>\<open>/v1X0\<close>, which the reading of the
  pattern as literal text with wildcards does not contain.
\<close>

theorem pattern_characters_are_regex_syntax:
  "matchesPattern ''/v1X0'' ''/v1.0'' = Inr True
   \<and> \<not> glob_search ''/v1.0'' ''/v1X0''
   \<and> RegExp_new (replace_stars ''/v1.0'')
       = Inr (mk_seq [Lit CHR ''/'', Lit CHR ''v'', Lit CHR ''1'', Dot, Lit CHR ''0''])"
  by code_simp

section \<open>Scanning a pattern list\<close>

lemma some_pattern_match:
  "\<exists>p\<in>set ps. f p = Inr True \<Longrightarrow> some_pattern f ps \<noteq> Inr False"
  by (induction ps) (auto split: sum.splits)


section \<open>Filtering\<close>




section \<open>The counter and replay lookups\<close>

lemma find_None_list_ex: "(find Q xs = None) = (\<not> list_ex Q xs)"
  by (auto simp: find_None_iff list_ex_iff)

text \<open>
  Claim C9, as amended.  \<^verbatim>\<open>findRecording\<close> increments the counter by exactly one
  when no recording of the store carries the key of the request: only then does it reach
  its call of \<^verbatim>\<open>generateFilename\<close>.  When a recording with the key is found it is
  returned at once, and the counter is left as it was.
\<close>

theorem findRecording_counter:
  "counter (snd (findRecording P this f now req)) =
     (if list_ex (\<lambda>recording. has_key recording (generateRequestKey P this req))
           (getRecordings P f)
      then counter this else counter this + 1)"
proof (cases "find (\<lambda>recording. get_prop recording ''requestKey''
                        = JStr (generateRequestKey P this req)) (getRecordings P f)")
  case None
  then have "\<not> list_ex (\<lambda>recording. has_key recording (generateRequestKey P this req))
           (getRecordings P f)"
    by (simp add: find_None_list_ex has_key_def)
  moreover have "counter (snd (findRecording P this f now req)) = counter this + 1"
    using None
    by (auto simp: findRecording_def Let_def split: option.splits prod.splits
        dest!: generateFilename_state)
  ultimately show ?thesis by simp
next
  case (Some r)
  then have "list_ex (\<lambda>recording. has_key recording (generateRequestKey P this req))
           (getRecordings P f)"
    using find_None_list_ex [of "\<lambda>recording. get_prop recording ''requestKey''
                        = JStr (generateRequestKey P this req)" "getRecordings P f"]
    by (simp add: has_key_def)
  moreover have "counter (snd (findRecording P this f now req)) = counter this"
    using Some by (simp add: findRecording_def Let_def)
  ultimately show ?thesis by simp
qed

text \<open>
  The claim as stated fails: in a store that holds a recording of the request, the lookup
  finds it by its key and the counter is not incremented.
\<close>

theorem findRecording_counter_counterexample:
  "counter (snd (findRecording (sample_platform [users_recording]) (new_middleware defaultConfig)
      recorded_store second_clock users_page_request))
   \<noteq> counter (new_middleware defaultConfig) + 1"
  by code_simp

theorem findRecording_counter_witness:
  "counter (snd (findRecording (sample_platform [users_recording]) (new_middleware defaultConfig)
      recorded_store second_clock users_page_request)) = 0
   \<and> counter (snd (findRecording (sample_platform [users_recording]) (new_middleware defaultConfig)
      empty_store second_clock users_page_request)) = 1"
proof -
  let ?P = "sample_platform [users_recording]"
  let ?mw = "new_middleware defaultConfig"
  have a: "list_ex (\<lambda>recording. has_key recording (generateRequestKey ?P ?mw users_page_request))
           (getRecordings ?P recorded_store)"
    by code_simp
  have b: "\<not> list_ex (\<lambda>recording. has_key recording (generateRequestKey ?P ?mw users_page_request))
           (getRecordings ?P empty_store)"
    by code_simp
  have c: "counter ?mw = 0" by (simp add: new_middleware_def)
  show ?thesis
    using findRecording_counter [of ?P ?mw recorded_store second_clock users_page_request]
      findRecording_counter [of ?P ?mw empty_store second_clock users_page_request] a b c
    by simp
qed

section \<open>Scanning the recordings directory\<close>

lemma filter_truthy_load:
  "filter truthy (map (load_file P f) files) = concat (map (scan_file P f) files)"
  by (induction files) (auto simp: load_file_def scan_file_def split: option.splits)

lemma getRecordings_scan:
  "getRecordings P f =
     (case dir f of None \<Rightarrow> [] | Some es \<Rightarrow> concat (map (scan_file P f) (json_files es)))"
  by (simp add: getRecordings_def readdirSync_def json_files_def filter_truthy_load
      split: option.splits)

lemma json_files_append: "json_files (xs @ ys) = json_files xs @ json_files ys"
  by (simp add: json_files_def)

lemma json_files_subset: "set (json_files es) \<subseteq> fst ` set es"
  by (auto simp: json_files_def)

lemma map_of_skip:
  "file \<noteq> bad \<Longrightarrow> map_of (es1 @ (bad, n) # es2) file = map_of (es1 @ es2) file"
  by (simp add: map_of_append map_add_def split: option.splits)

lemma scan_file_skip:
  assumes "file \<noteq> bad" and "dir f = Some (es1 @ (bad, n) # es2)"
  shows "scan_file P f file = scan_file P (f\<lparr>dir := Some (es1 @ es2)\<rparr>) file"
proof -
  have "map_of (es1 @ (bad, n) # es2) file = map_of (es1 @ es2) file"
    using assms(1) by (rule map_of_skip)
  then show ?thesis
    using assms(2) by (simp add: scan_file_def readFileSync_def del: map_of_append)
qed

lemma scan_file_bad:
  assumes "dir f = Some (es1 @ (bad, n) # es2)" and "bad \<notin> fst ` set es1"
    and "n = Directory \<or> (\<exists>text. n = File text \<and> JSON_parse P text = None)"
  shows "scan_file P f bad = []"
proof -
  have "map_of es1 bad = None" using assms(2) by (simp add: map_of_eq_None_iff)
  then have "map_of (es1 @ (bad, n) # es2) bad = Some n"
    by (simp add: map_of_append map_add_def)
  then show ?thesis using assms(1,3) by (auto simp: scan_file_def readFileSync_def)
qed

text \<open>
  Claim C8.  \<^verbatim>\<open>getRecordings\<close> goes through every \<^verbatim>\<open>*.json\<close> file directly under the
  directory and returns, in enumeration order, the parsed record of each file that can be
  read and parsed; a file that fails contributes nothing and does not stop the scan: the
  result is the same as if the failing file were not there.  A directory that cannot be
  read gives the empty list.  (\<^verbatim>\<open>filter(Boolean)\<close> also drops a file whose text parses
  to a falsy value such as \<open>null\<close>; a record is an object and is kept.)
\<close>

theorem getRecordings_skips_failed_files:
  "getRecordings P f =
     (case dir f of
        None \<Rightarrow> []
      | Some es \<Rightarrow> concat (map (scan_file P f) (json_files es)))
   \<and> (dir f = Some (es1 @ (bad, n) # es2)
        \<and> bad \<notin> fst ` set (es1 @ es2)
        \<and> (n = Directory \<or> (\<exists>text. n = File text \<and> JSON_parse P text = None))
        \<longrightarrow> getRecordings P f = getRecordings P (f\<lparr>dir := Some (es1 @ es2)\<rparr>))"
proof (intro conjI impI)
  show "getRecordings P f =
     (case dir f of None \<Rightarrow> [] | Some es \<Rightarrow> concat (map (scan_file P f) (json_files es)))"
    by (rule getRecordings_scan)
next
  assume a: "dir f = Some (es1 @ (bad, n) # es2) \<and> bad \<notin> fst ` set (es1 @ es2)
        \<and> (n = Directory \<or> (\<exists>text. n = File text \<and> JSON_parse P text = None))"
  let ?g = "f\<lparr>dir := Some (es1 @ es2)\<rparr>"
  from a have d: "dir f = Some (es1 @ (bad, n) # es2)" by simp
  from a have nb1: "bad \<notin> fst ` set es1" and nb2: "bad \<notin> fst ` set es2" by auto
  from a have fails: "n = Directory \<or> (\<exists>text. n = File text \<and> JSON_parse P text = None)"
    by simp
  have same1: "map (scan_file P f) (json_files es1) = map (scan_file P ?g) (json_files es1)"
    using nb1 json_files_subset [of es1] by (intro map_cong refl scan_file_skip [OF _ d]) auto
  have same2: "map (scan_file P f) (json_files es2) = map (scan_file P ?g) (json_files es2)"
    using nb2 json_files_subset [of es2] by (intro map_cong refl scan_file_skip [OF _ d]) auto
  have bad: "concat (map (scan_file P f) (json_files [(bad, n)])) = []"
    using scan_file_bad [OF d nb1 fails] by (simp add: json_files_def)
  have "getRecordings P f
      = concat (map (scan_file P f) (json_files es1))
        @ concat (map (scan_file P f) (json_files [(bad, n)]))
        @ concat (map (scan_file P f) (json_files es2))"
    using d json_files_append [of es1 "(bad, n) # es2"] json_files_append [of "[(bad, n)]" es2]
    by (simp add: getRecordings_scan)
  also have "\<dots> = concat (map (scan_file P ?g) (json_files es1))
        @ concat (map (scan_file P ?g) (json_files es2))"
    by (simp only: same1 same2 bad append_Nil)
  also have "\<dots> = getRecordings P ?g"
    by (simp add: getRecordings_scan json_files_append)
  finally show "getRecordings P f = getRecordings P ?g" .
qed

theorem getRecordings_skips_failed_files_witness:
  "getRecordings (sample_platform [users_recording, health_recording]) mixed_store
     = [users_recording, health_recording]
   \<and> getRecordings (sample_platform [users_recording, health_recording])
        (mixed_store\<lparr>dir := Some
           [(''GET_api_users_1703123456789.json'', File (sample_stringify users_recording 2)),
            (''notes.txt'', File ''plain text''),
            (''archive.json'', Directory),
            (''GET_api_health_1703123460000.json'', File (sample_stringify health_recording 2))]\<rparr>)
     = [users_recording, health_recording]"
proof -
  let ?P = "sample_platform [users_recording, health_recording]"
  let ?es1 = "[(''GET_api_users_1703123456789.json'', File (sample_stringify users_recording 2))]"
  let ?es2 = "[(''notes.txt'', File ''plain text''),
            (''archive.json'', Directory),
            (''GET_api_health_1703123460000.json'', File (sample_stringify health_recording 2))]"
  have d: "dir mixed_store = Some (?es1 @ (''broken.json'', File ''{'') # ?es2)"
    by (simp add: mixed_store_def)
  have nb: "''broken.json'' \<notin> fst ` set (?es1 @ ?es2)" by simp
  have fails: "File ''{'' = Directory \<or> (\<exists>text. File ''{'' = File text \<and> JSON_parse ?P text = None)"
  proof -
    have "JSON_parse ?P ''{'' = None" by code_simp
    then show ?thesis by simp
  qed
  have eq: "getRecordings ?P mixed_store = getRecordings ?P (mixed_store\<lparr>dir := Some (?es1 @ ?es2)\<rparr>)"
    using getRecordings_skips_failed_files [of ?P mixed_store ?es1 "''broken.json''" "File ''{''" ?es2]
      d nb fails by (rule conjunct2 [THEN mp, OF _ conjI [OF _ conjI]])
  have v: "getRecordings ?P mixed_store = [users_recording, health_recording]"
    by code_simp
  show ?thesis using eq v by simp
qed

section \<open>Filename rendering: replacements and the path text\<close>

lemma get_substitution_plain:
  "CHR ''$'' \<notin> set r \<Longrightarrow> get_substitution m pre post r = r"
  by (induction r) auto

lemma replace_scan_absent:
  "c0 \<notin> set s \<Longrightarrow> replace_scan (c0 # rest) repl 0 pre s = s"
  by (induction s arbitrary: pre) auto

lemma replace_all_absent:
  "c0 \<notin> set s \<Longrightarrow> replace_all (c0 # rest) repl s = s"
  by (simp add: replace_all_def replace_scan_absent)

lemma digit_char_isDigit: "d < 10 \<Longrightarrow> isDigit (digit_char d)"
  by (simp add: isDigit_def digit_char_def less_eq_char_def)

lemma nat_to_string_digits: "\<forall>c\<in>set (nat_to_string n). isDigit c"
proof (induction n rule: nat_to_string.induct)
  case (1 n)
  show ?case
  proof (cases "n < 10")
    case True
    then show ?thesis by (subst nat_to_string.simps) (simp add: digit_char_isDigit)
  next
    case False
    then show ?thesis
      using 1 by (subst nat_to_string.simps) (simp add: digit_char_isDigit)
  qed
qed

lemma nat_to_string_length:
  "10 ^ k \<le> n \<Longrightarrow> n < 10 ^ Suc k \<Longrightarrow> length (nat_to_string n) = Suc k"
proof (induction n arbitrary: k rule: nat_to_string.induct)
  case (1 n)
  show ?case
  proof (cases "n < 10")
    case True
    have "k = 0"
    proof (cases k)
      case (Suc j)
      have "(1::nat) \<le> 10 ^ j" by simp
      with Suc 1(2) True show ?thesis by simp
    qed simp
    then show ?thesis using True by (subst nat_to_string.simps) simp
  next
    case False
    with 1(3) obtain j where k: "k = Suc j" by (cases k) auto
    have "10 ^ j \<le> n div 10" using 1(2) k by (simp add: less_eq_div_iff_mult_less_eq)
    moreover have "n div 10 < 10 ^ Suc j" using 1(3) k by (simp add: div_less_iff_less_mult)
    ultimately have "length (nat_to_string (n div 10)) = Suc j"
      using 1(1) [OF False] by blast
    then show ?thesis using False k by (subst nat_to_string.simps) simp
  qed
qed

lemma isDigit_not_special: "isDigit c \<Longrightarrow> c \<noteq> CHR ''$'' \<and> c \<noteq> CHR ''{''"
  by (auto simp: isDigit_def less_eq_char_def)


lemma collapse_Cons: "\<exists>t. collapse_underscores (c # s) = c # t"
  by (induction s arbitrary: c) auto

lemma adjacent_free_collapse: "adjacent_free (collapse_underscores s)"
proof (induction s rule: collapse_underscores.induct)
  case (3 c d s)
  obtain t where t: "collapse_underscores (d # s) = d # t"
    using collapse_Cons by blast
  with 3 show ?case by auto
qed simp_all

lemma adjacent_free_tl: "adjacent_free (c # s) \<Longrightarrow> adjacent_free s"
  by (cases s) auto

lemma adjacent_free_snoc:
  "adjacent_free (v @ [CHR ''_'']) \<Longrightarrow> v = [] \<or> last v \<noteq> CHR ''_''"
  by (induction v rule: adjacent_free.induct) auto

lemma dropWhile_rev_adjacent_free:
  assumes "adjacent_free u"
  shows "rev (dropWhile (\<lambda>c. c = CHR ''_'') (rev u)) = strip_end u"
proof (cases "u \<noteq> [] \<and> last u = CHR ''_''")
  case True
  then obtain v where u: "u = v @ [CHR ''_'']"
    by (metis append_butlast_last_id)
  with assms have "v = [] \<or> last v \<noteq> CHR ''_''" by (simp add: adjacent_free_snoc)
  then have "dropWhile (\<lambda>c. c = CHR ''_'') (rev v) = rev v"
    by (cases v rule: rev_cases) auto
  then show ?thesis using u by (simp add: strip_end_def)
next
  case False
  then have "dropWhile (\<lambda>c. c = CHR ''_'') (rev u) = rev u"
    by (cases u rule: rev_cases) auto
  then show ?thesis using False by (auto simp: strip_end_def)
qed

lemma trim_is_strip:
  assumes "adjacent_free s"
  shows "trim_underscores s = strip_underscores s"
proof (cases s)
  case Nil
  then show ?thesis by (simp add: trim_underscores_def strip_underscores_def)
next
  case (Cons c t)
  show ?thesis
  proof (cases "c = CHR ''_''")
    case True
    have t: "adjacent_free t" using assms Cons by (simp add: adjacent_free_tl)
    have "t = [] \<or> hd t \<noteq> CHR ''_''" using assms Cons True by (cases t) auto
    then have "dropWhile (\<lambda>c. c = CHR ''_'') s = t" using Cons True by (cases t) auto
    then show ?thesis
      using Cons True dropWhile_rev_adjacent_free [OF t]
      by (simp add: trim_underscores_def strip_underscores_def)
  next
    case False
    then have "dropWhile (\<lambda>c. c = CHR ''_'') s = s" using Cons by simp
    then show ?thesis
      using Cons False dropWhile_rev_adjacent_free [OF assms]
      by (simp add: trim_underscores_def strip_underscores_def)
  qed
qed

lemma url_text_is_sanitized: "url_text p = sanitized_path p"
  by (simp add: url_text_def sanitized_path_def replace_non_alnum_def trim_is_strip
      adjacent_free_collapse)

lemma collapse_set: "set (collapse_underscores s) \<subseteq> set s"
  by (induction s rule: collapse_underscores.induct) auto

lemma trim_set: "set (trim_underscores s) \<subseteq> set s"
  by (auto simp: trim_underscores_def dest!: set_dropWhileD)

lemma sanitized_chars: "c \<in> set (sanitized_path p) \<Longrightarrow> isAlnum c \<or> c = CHR ''_''"
proof -
  assume "c \<in> set (sanitized_path p)"
  then have "c \<in> set (map (\<lambda>c. if isAlnum c then c else CHR ''_'') p)"
    using trim_set collapse_set unfolding sanitized_path_def by blast
  then show ?thesis by auto
qed

lemma drop_end_keeps_hd:
  "d \<noteq> [] \<Longrightarrow> \<not> Q (hd d) \<Longrightarrow>
   rev (dropWhile Q (rev d)) \<noteq> [] \<and> hd (rev (dropWhile Q (rev d))) = hd d"
proof (induction d rule: rev_induct)
  case Nil
  then show ?case by simp
next
  case (snoc x xs)
  show ?case
  proof (cases "Q x")
    case False
    then show ?thesis by simp
  next
    case True
    with snoc.prems have ne: "xs \<noteq> []" by (cases xs) auto
    then have h: "hd (xs @ [x]) = hd xs" by simp
    with snoc.prems have "\<not> Q (hd xs)" by simp
    with ne have ih: "rev (dropWhile Q (rev xs)) \<noteq> [] \<and> hd (rev (dropWhile Q (rev xs))) = hd xs"
      by (rule snoc.IH)
    have "rev (dropWhile Q (rev (xs @ [x]))) = rev (dropWhile Q (rev xs))"
      using True by simp
    then show ?thesis using ih h by (simp only: not_False_eq_True simp_thms)
  qed
qed

lemma trim_ends:
  assumes "trim_underscores s \<noteq> []"
  shows "hd (trim_underscores s) \<noteq> CHR ''_'' \<and> last (trim_underscores s) \<noteq> CHR ''_''"
proof -
  define d where "d = dropWhile (\<lambda>c. c = CHR ''_'') s"
  define e where "e = dropWhile (\<lambda>c. c = CHR ''_'') (rev d)"
  have t: "trim_underscores s = rev e" by (simp add: trim_underscores_def d_def e_def)
  have e: "e \<noteq> []" using assms t by simp
  have "hd e \<noteq> CHR ''_''" using e hd_dropWhile [of "\<lambda>c. c = CHR ''_''" "rev d"] by (simp add: e_def)
  then have l: "last (rev e) \<noteq> CHR ''_''" using e by (simp add: last_rev)
  have dne: "d \<noteq> []" using e by (auto simp: e_def)
  then have hdd: "hd d \<noteq> CHR ''_''"
    using hd_dropWhile [of "\<lambda>c. c = CHR ''_''" s] by (simp add: d_def)
  have "hd (rev e) = hd d"
    using drop_end_keeps_hd [of d "\<lambda>c. c = CHR ''_''"] dne hdd by (simp add: e_def)
  then show ?thesis using hdd l t by simp
qed

lemma adjacent_free_butlast: "adjacent_free s \<Longrightarrow> adjacent_free (butlast s)"
  by (induction s rule: adjacent_free.induct) auto

lemma adjacent_free_url_text: "adjacent_free (url_text p)"
proof -
  let ?c = "collapse_underscores (replace_non_alnum p)"
  have c: "adjacent_free ?c" by (rule adjacent_free_collapse)
  have se: "adjacent_free (strip_end u)" if "adjacent_free u" for u
    using that by (simp add: strip_end_def adjacent_free_butlast)
  show ?thesis
  proof (cases ?c)
    case Nil
    then show ?thesis by (simp add: url_text_def strip_underscores_def)
  next
    case (Cons a t)
    have "adjacent_free t" using c Cons by (simp add: adjacent_free_tl)
    then show ?thesis
      using c Cons se [of t] se [of ?c] by (simp add: url_text_def strip_underscores_def)
  qed
qed

lemma replace_scan_skip:
  "replace_scan needle repl k pre s = replace_scan needle repl 0 (pre @ take k s) (drop k s)"
proof (induction s arbitrary: k pre)
  case Nil
  then show ?case by simp
next
  case (Cons c s)
  show ?case
  proof (cases k)
    case 0
    then show ?thesis by simp
  next
    case (Suc j)
    then show ?thesis using Cons [of j "pre @ [c]"] by simp
  qed
qed

lemma replace_scan_prefix_absent:
  "c0 \<notin> set a \<Longrightarrow>
   replace_scan (c0 # rest) repl 0 pre (a @ s) = a @ replace_scan (c0 # rest) repl 0 (pre @ a) s"
  by (induction a arbitrary: pre) auto

lemma url_text_plain: "c \<in> set (url_text p) \<Longrightarrow> c \<noteq> CHR ''$'' \<and> c \<noteq> CHR ''{''"
  using sanitized_chars [of c p]
  by (auto simp: url_text_is_sanitized isAlnum_def isDigit_def less_eq_char_def)

lemma single_url_placeholder:
  assumes pat: "namingPattern (config this) = pre @ ''{url}'' @ post"
    and pre: "CHR ''{'' \<notin> set pre" and post: "CHR ''{'' \<notin> set post"
  shows "fst (generateFilename this now req) = pre @ sanitized_path (path req) @ post"
proof -
  let ?u = "url_text (path req)"
  have no_dollar: "CHR ''$'' \<notin> set ?u" and no_brace: "CHR ''{'' \<notin> set ?u"
    using url_text_plain [of _ "path req"] by blast+
  have tail: "replace_scan (CHR ''{'' # rest) r 0 q post = post" for rest r q
    using post by (rule replace_scan_absent)
  have a: "replace_all ''{method}'' (method' req) (pre @ ''{url}'' @ post) = pre @ ''{url}'' @ post"
    using pre by (simp add: replace_all_def replace_scan_prefix_absent tail)
  have rest: "replace_scan ''{url}'' ?u 4 q (''url}'' @ post) = post" for q
    by (subst replace_scan_skip) (simp add: tail)
  have b: "replace_all ''{url}'' ?u (pre @ ''{url}'' @ post) = pre @ ?u @ post"
    using pre no_dollar
    by (simp add: replace_all_def replace_scan_prefix_absent get_substitution_plain rest tail)
  have clean: "CHR ''{'' \<notin> set (pre @ ?u @ post)"
    using pre post no_brace by simp
  have "fst (generateFilename this now req) = pre @ ?u @ post"
    by (simp only: generateFilename_def Let_def fst_conv pat a b replace_all_absent [OF clean])
  then show ?thesis by (simp only: url_text_is_sanitized)
qed

lemma timestamp_pattern:
  assumes "namingPattern (config this) = ''{method}_{url}_{timestamp}''"
    and "method' req = ''GET''" and "path req = ''/api/users''"
    and "0 \<le> getTime now"
  shows "fst (generateFilename this now req) = ''GET_api_users_'' @ nat_to_string (nat (getTime now))"
proof -
  let ?ts = "nat_to_string (nat (getTime now))"
  have ts: "\<forall>c\<in>set ?ts. c \<noteq> CHR ''$'' \<and> c \<noteq> CHR ''{''"
    using nat_to_string_digits isDigit_not_special by blast
  have a: "replace_all ''{method}'' ''GET'' ''{method}_{url}_{timestamp}'' = ''GET_{url}_{timestamp}''"
    by code_simp
  have u: "url_text ''/api/users'' = ''api_users''"
    by code_simp
  have b: "replace_all ''{url}'' ''api_users'' ''GET_{url}_{timestamp}'' = ''GET_api_users_{timestamp}''"
    by code_simp
  have c: "replace_all ''{date}'' d ''GET_api_users_{timestamp}'' = ''GET_api_users_{timestamp}''" for d
    by (simp add: replace_all_def)
  have skip: "replace_scan ''{timestamp}'' r 10 pre ''timestamp}'' = []" for r pre
    by (subst replace_scan_skip) simp
  have nd: "CHR ''$'' \<notin> set ?ts" using ts by blast
  have d: "replace_all ''{timestamp}'' ?ts ''GET_api_users_{timestamp}'' = ''GET_api_users_'' @ ?ts"
    by (simp add: replace_all_def get_substitution_plain [OF nd] skip)
  have e: "replace_all ''{counter}'' r (''GET_api_users_'' @ ?ts) = ''GET_api_users_'' @ ?ts" for r
    using ts by (intro replace_all_absent) auto
  show ?thesis
    using assms by (simp add: generateFilename_def Let_def a u b c d e [simplified] int_to_string_def)
qed

text \<open>
  Claim C7.  The text that \<^verbatim>\<open>generateFilename\<close> puts in the place of \<^verbatim>\<open>{url}\<close> is the
  request path with every character outside \<^verbatim>\<open>[a-zA-Z0-9]\<close> replaced by an underscore,
  runs of underscores collapsed to one and the underscores at both ends cut off: it
  consists of letters, digits and single underscores and neither starts nor ends with an
  underscore.  A naming pattern with the one placeholder \<^verbatim>\<open>{url}\<close> renders to the pattern
  with that text in the place of the placeholder.  For the pattern
  \<^verbatim>\<open>{method}_{url}_{timestamp}\<close> and the request \<^verbatim>\<open>GET /api/users\<close> the name is
  \<^verbatim>\<open>GET_api_users_\<close> followed by the epoch milliseconds of the clock, which are 13
  digits for every time from September 2001 to November 2286.
\<close>

theorem filename_rendering:
  "url_text p = sanitized_path p
   \<and> (\<forall>c\<in>set (url_text p). isAlnum c \<or> c = CHR ''_'')
   \<and> adjacent_free (url_text p)
   \<and> (url_text p \<noteq> [] \<longrightarrow> hd (url_text p) \<noteq> CHR ''_'' \<and> last (url_text p) \<noteq> CHR ''_'')
   \<and> (namingPattern (config this) = pre @ ''{url}'' @ post
        \<and> CHR ''{'' \<notin> set pre \<and> CHR ''{'' \<notin> set post
        \<longrightarrow> fst (generateFilename this now req) = pre @ sanitized_path (path req) @ post)
   \<and> (namingPattern (config this') = ''{method}_{url}_{timestamp}''
        \<and> method' req' = ''GET'' \<and> path req' = ''/api/users''
        \<and> 10 ^ 12 \<le> getTime now' \<and> getTime now' < 10 ^ 13
        \<longrightarrow> fst (generateFilename this' now' req')
              = ''GET_api_users_'' @ nat_to_string (nat (getTime now'))
            \<and> length (nat_to_string (nat (getTime now'))) = 13
            \<and> list_all isDigit (nat_to_string (nat (getTime now'))))"
proof (intro conjI impI ballI)
  show "url_text p = sanitized_path p" by (rule url_text_is_sanitized)
  show "isAlnum c \<or> c = CHR ''_''" if "c \<in> set (url_text p)" for c
    using that sanitized_chars [of c p] by (simp add: url_text_is_sanitized)
  show "adjacent_free (url_text p)" by (rule adjacent_free_url_text)
  show "hd (url_text p) \<noteq> CHR ''_''" if "url_text p \<noteq> []"
    using that trim_ends [of "collapse_underscores (map (\<lambda>c. if isAlnum c then c else CHR ''_'') p)"]
    by (simp add: url_text_is_sanitized sanitized_path_def)
  show "last (url_text p) \<noteq> CHR ''_''" if "url_text p \<noteq> []"
    using that trim_ends [of "collapse_underscores (map (\<lambda>c. if isAlnum c then c else CHR ''_'') p)"]
    by (simp add: url_text_is_sanitized sanitized_path_def)
  show "fst (generateFilename this now req) = pre @ sanitized_path (path req) @ post"
    if "namingPattern (config this) = pre @ ''{url}'' @ post
        \<and> CHR ''{'' \<notin> set pre \<and> CHR ''{'' \<notin> set post"
    using that by (intro single_url_placeholder) simp_all
next
  assume a: "namingPattern (config this') = ''{method}_{url}_{timestamp}''
        \<and> method' req' = ''GET'' \<and> path req' = ''/api/users''
        \<and> 10 ^ 12 \<le> getTime now' \<and> getTime now' < 10 ^ 13"
  then have nonneg: "0 \<le> getTime now'" by simp
  show "fst (generateFilename this' now' req')
              = ''GET_api_users_'' @ nat_to_string (nat (getTime now'))"
    using a nonneg by (intro timestamp_pattern) simp_all
  from a have l: "(1000000000000::int) \<le> getTime now'"
    and u: "getTime now' < (10000000000000::int)" by simp_all
  have "(1000000000000::nat) \<le> nat (getTime now')" using l by arith
  then have lo: "(10::nat) ^ 12 \<le> nat (getTime now')" by simp
  have "nat (getTime now') < (10000000000000::nat)" using l u by arith
  then have hi: "nat (getTime now') < (10::nat) ^ Suc 12" by simp
  show "length (nat_to_string (nat (getTime now'))) = 13"
    using nat_to_string_length [OF lo hi] by simp
  show "list_all isDigit (nat_to_string (nat (getTime now')))"
    using nat_to_string_digits by (simp add: list_all_iff)
qed

theorem filename_rendering_witness:
  "fst (generateFilename (new_middleware defaultConfig) first_clock (get_request ''/api/users''))
     = ''GET_api_users_1703123456789''
   \<and> fst (generateFilename (new_middleware (defaultConfig\<lparr>namingPattern := ''rec-{url}.v1''\<rparr>))
          first_clock (get_request ''//api/v1.0/users/''))
     = ''rec-api_v1_0_users.v1''"
proof -
  let ?mw = "new_middleware defaultConfig"
  let ?r = "get_request ''/api/users''"
  let ?mw2 = "new_middleware (defaultConfig\<lparr>namingPattern := ''rec-{url}.v1''\<rparr>)"
  let ?r2 = "get_request ''//api/v1.0/users/''"
  note inst = filename_rendering [of "[]" ?mw2 "''rec-''" "''.v1''" first_clock ?r2 ?mw ?r first_clock]
  have h: "namingPattern (config ?mw) = ''{method}_{url}_{timestamp}''
        \<and> method' ?r = ''GET'' \<and> path ?r = ''/api/users''
        \<and> 10 ^ 12 \<le> getTime first_clock \<and> getTime first_clock < 10 ^ 13"
    by (simp add: new_middleware_def defaultConfig_def get_request_def first_clock_def)
  have n: "nat_to_string (nat (getTime first_clock)) = ''1703123456789''"
    by (simp add: first_clock_def nat_to_string.simps digit_char_def char_of_eq_iff)
  have "fst (generateFilename ?mw first_clock ?r)
      = ''GET_api_users_'' @ nat_to_string (nat (getTime first_clock))"
    using h
    by (rule inst [THEN conjunct2, THEN conjunct2, THEN conjunct2, THEN conjunct2,
          THEN conjunct2, THEN mp, THEN conjunct1])
  then have a: "fst (generateFilename ?mw first_clock ?r) = ''GET_api_users_1703123456789''"
    by (simp only: n) simp
  have h2: "namingPattern (config ?mw2) = ''rec-'' @ ''{url}'' @ ''.v1''
      \<and> CHR ''{'' \<notin> set ''rec-'' \<and> CHR ''{'' \<notin> set ''.v1''"
    by (simp add: new_middleware_def)
  have s: "sanitized_path (path ?r2) = ''api_v1_0_users''" by code_simp
  have "fst (generateFilename ?mw2 first_clock ?r2) = ''rec-'' @ sanitized_path (path ?r2) @ ''.v1''"
    using h2
    by (rule inst [THEN conjunct2, THEN conjunct2, THEN conjunct2, THEN conjunct2,
          THEN conjunct1, THEN mp])
  then have b: "fst (generateFilename ?mw2 first_clock ?r2) = ''rec-api_v1_0_users.v1''"
    by (simp only: s) simp
  show ?thesis using a b by (rule conjI)
qed

section \<open>The query step of the key\<close>

lemma URLSearchParams_pairs: "URLSearchParams_toString q = join ''&'' (map pair_text q)"
proof -
  have "(\<lambda>(k, v). form_encode k @ ''='' @ form_encode (ToString v)) = pair_text"
    by (auto simp: pair_text_def fun_eq_iff)
  then show ?thesis by (simp only: URLSearchParams_toString_def)
qed

lemma key_steps:
  "generateRequestKey P this req =
     (if caseSensitive (matching (config this)) then (\<lambda>s. s) else toLowerCase)
       (method' req @ '':'' @ path req
        @ query_step (matching (config this)) (query req)
        @ later_steps P (matching (config this)) (headers req) (body req))"
  by (simp add: generateRequestKey_def Let_def query_step_def later_steps_def
      URLSearchParams_pairs)

lemma form_encode_unreserved: "list_all unreserved s \<Longrightarrow> form_encode s = s"
  by (induction s) (auto simp: form_encode_def form_encode_char_def unreserved_def)

lemma hex_digit_alnum: "d < 16 \<Longrightarrow> isAlnum (hex_digit d)"
  by (auto simp: hex_digit_def isAlnum_def isDigit_def less_eq_char_def)


lemma of_char_less_256: "(of_char c :: nat) < 256"
proof -
  have "(of_char c :: nat) mod 256 = of_char c" by (rule of_char_mod_256)
  moreover have "(of_char c :: nat) mod 256 < 256" by simp
  ultimately show ?thesis by simp
qed

lemma percent_byte_chars:
  "b < 256 \<Longrightarrow> c \<in> set (percent_byte b) \<Longrightarrow> unreserved c \<or> c = CHR ''%''"
proof -
  assume b: "b < 256" and c: "c \<in> set (percent_byte b)"
  have "b div 16 < 16" using b by simp
  moreover have "b mod 16 < 16" by simp
  ultimately show ?thesis
    using c hex_digit_alnum by (auto simp: percent_byte_def unreserved_def)
qed

lemma utf8_bytes_small: "b \<in> set (utf8_bytes c) \<Longrightarrow> b < 256"
proof -
  assume b: "b \<in> set (utf8_bytes c)"
  have "(of_char c :: nat) < 256" by (rule of_char_less_256)
  then have "(of_char c :: nat) div 64 < 4" by (simp add: div_less_iff_less_mult)
  moreover have "(of_char c :: nat) mod 64 < 64" by simp
  ultimately show ?thesis
    using b by (auto simp: utf8_bytes_def Let_def split: if_splits)
qed

lemma form_encode_char_chars:
  assumes "d \<in> set (form_encode_char c)"
  shows "unreserved d \<or> d = CHR ''+'' \<or> d = CHR ''%''"
proof (cases "unreserved c")
  case True
  then have "form_encode_char c = [c]" by (simp add: form_encode_char_def unreserved_def)
  with assms True show ?thesis by simp
next
  case False
  show ?thesis
  proof (cases "c = CHR '' ''")
    case True
    with False have "form_encode_char c = ''+''"
      by (simp add: form_encode_char_def unreserved_def)
    with assms show ?thesis by simp
  next
    case sp: False
    with False have "form_encode_char c = concat (map percent_byte (utf8_bytes c))"
      by (simp add: form_encode_char_def unreserved_def)
    with assms obtain b where b: "b \<in> set (utf8_bytes c)" and d: "d \<in> set (percent_byte b)"
      by auto
    from b have "b < 256" by (rule utf8_bytes_small)
    then have "unreserved d \<or> d = CHR ''%''" using d by (rule percent_byte_chars)
    then show ?thesis by blast
  qed
qed

lemma form_encode_chars:
  assumes "d \<in> set (form_encode s)"
  shows "unreserved d \<or> d = CHR ''+'' \<or> d = CHR ''%''"
proof -
  from assms obtain c where "d \<in> set (form_encode_char c)"
    by (auto simp: form_encode_def)
  then show ?thesis by (rule form_encode_char_chars)
qed

text \<open>
  Claim C6.  The key is the base \<^verbatim>\<open>METHOD:PATH\<close>, then the query step, then the header
  and body steps, lower-cased as a whole unless \<open>caseSensitive\<close> is set.  The query step
  is empty when \<open>includeQuery\<close> is false or the request has no query parameter;
  otherwise it is \<^verbatim>\<open>?\<close> followed by the parameters in their given order, each as
  \<^verbatim>\<open>name=value\<close>, joined with \<^verbatim>\<open>&\<close>.  Names and values are URL-encoded as
  \<^verbatim>\<open>URLSearchParams\<close> does it: letters, digits and \<^verbatim>\<open>* - . _\<close> stay as they are,
  and the encoded text holds nothing but these, \<^verbatim>\<open>+\<close> (for a space) and
  percent-escapes.
\<close>

theorem query_step_of_key:
  "generateRequestKey P this req =
     (if caseSensitive (matching (config this)) then (\<lambda>s. s) else toLowerCase)
       (method' req @ '':'' @ path req
        @ (if includeQuery (matching (config this)) \<and> query req \<noteq> []
           then ''?'' @ join ''&''
                  (map (\<lambda>(k, v). form_encode k @ ''='' @ form_encode (ToString v)) (query req))
           else [])
        @ later_steps P (matching (config this)) (headers req) (body req))
   \<and> (list_all unreserved s \<longrightarrow> form_encode s = s)
   \<and> (\<forall>c\<in>set (form_encode s). unreserved c \<or> c = CHR ''+'' \<or> c = CHR ''%'')"
proof (intro conjI impI ballI)
  have "(\<lambda>(k, v). form_encode k @ ''='' @ form_encode (ToString v)) = pair_text"
    by (auto simp: pair_text_def fun_eq_iff)
  then show "generateRequestKey P this req =
     (if caseSensitive (matching (config this)) then (\<lambda>s. s) else toLowerCase)
       (method' req @ '':'' @ path req
        @ (if includeQuery (matching (config this)) \<and> query req \<noteq> []
           then ''?'' @ join ''&''
                  (map (\<lambda>(k, v). form_encode k @ ''='' @ form_encode (ToString v)) (query req))
           else [])
        @ later_steps P (matching (config this)) (headers req) (body req))"
    by (simp only: key_steps [of P this req] query_step_def)
  show "form_encode s = s" if "list_all unreserved s"
    using that by (rule form_encode_unreserved)
  show "unreserved c \<or> c = CHR ''+'' \<or> c = CHR ''%''" if "c \<in> set (form_encode s)" for c
    using that by (rule form_encode_chars)
qed

theorem query_step_of_key_witness:
  "generateRequestKey (sample_platform []) (new_middleware defaultConfig) users_page_request
     = ''get:/api/users?page=1''
   \<and> generateRequestKey (sample_platform [])
        (new_middleware (defaultConfig\<lparr>matching := (matching defaultConfig)\<lparr>caseSensitive := True\<rparr>\<rparr>))
        search_request
     = ''GET:/Search?q=a+b%2Fc&tag=x%2Cy''
   \<and> generateRequestKey (sample_platform [])
        (new_middleware (defaultConfig\<lparr>matching := (matching defaultConfig)\<lparr>includeQuery := False\<rparr>\<rparr>))
        search_request
     = ''get:/search''
   \<and> form_encode ''page-1_a.b*'' = ''page-1_a.b*''"
proof -
  let ?P = "sample_platform []"
  let ?a = "new_middleware defaultConfig"
  let ?b = "new_middleware (defaultConfig\<lparr>matching := (matching defaultConfig)\<lparr>caseSensitive := True\<rparr>\<rparr>)"
  let ?c = "new_middleware (defaultConfig\<lparr>matching := (matching defaultConfig)\<lparr>includeQuery := False\<rparr>\<rparr>)"
  have a: "generateRequestKey ?P ?a users_page_request = ''get:/api/users?page=1''"
    by (subst query_step_of_key [of ?P ?a users_page_request "[]", THEN conjunct1]) code_simp
  have b: "generateRequestKey ?P ?b search_request = ''GET:/Search?q=a+b%2Fc&tag=x%2Cy''"
    by (subst query_step_of_key [of ?P ?b search_request "[]", THEN conjunct1]) code_simp
  have c: "generateRequestKey ?P ?c search_request = ''get:/search''"
    by (subst query_step_of_key [of ?P ?c search_request "[]", THEN conjunct1]) code_simp
  have u: "list_all unreserved ''page-1_a.b*''" by code_simp
  have d: "form_encode ''page-1_a.b*'' = ''page-1_a.b*''"
    using u by (rule query_step_of_key [THEN conjunct2, THEN conjunct1, THEN mp])
  show ?thesis using a b c d by (intro conjI)
qed

end
